theory Spec2Isabelle
  imports Main "HOL-Library.AList"
begin

section \<open>Credential source\<close>

text \<open>
  Both server files keep the credentials in an \<open>AuthSource\<close> object: the indices found at
  start-up (\<open>initialIndices\<close>) and a JavaScript \<open>Map\<close> of accounts added at run time
  (\<open>runtimeAuths\<close>), whose keys are enumerated in insertion order. The payload of an
  account is opaque here.
\<close>

record 'p authSource =
  initialIndices :: "int list"
  runtimeAuths :: "(int \<times> 'p) list"

text \<open>
  \<open>getAvailableIndices\<close>: \<open>[...new Set([...initialIndices, ...runtimeIndices])].sort((a, b) => a - b)\<close>,
  the same expression in both files.
\<close>

definition getAvailableIndices :: "'p authSource \<Rightarrow> int list" where
  "getAvailableIndices a = sort (remdups (initialIndices a @ map fst (runtimeAuths a)))"

text \<open>\<open>Array.prototype.indexOf\<close>; the result \<open>-1\<close> of the source is \<open>None\<close>.\<close>

fun indexOf :: "'a list \<Rightarrow> 'a \<Rightarrow> nat option" where
  "indexOf [] y = None"
| "indexOf (x # xs) y =
     (if x = y then Some 0 else (case indexOf xs y of None \<Rightarrow> None | Some i \<Rightarrow> Some (Suc i)))"

text \<open>
  \<open>RequestHandler._getNextAuthIndex\<close> of the full server: \<open>null\<close> (here \<open>None\<close>) for an
  empty list, the only entry of a singleton list, the first entry when the current index
  is not listed, and otherwise the entry after the current one, modulo the length.
\<close>

definition getNextAuthIndex :: "int list \<Rightarrow> int \<Rightarrow> int option" where
  "getNextAuthIndex available current =
     (if length available = 0 then None
      else if length available = 1 then Some (available ! 0)
      else (case indexOf available current of
              None \<Rightarrow> Some (available ! 0)
            | Some currentIndexInArray \<Rightarrow>
                Some (available ! ((currentIndexInArray + 1) mod length available))))"

text \<open>
  \<open>RequestHandler._getNextAuthIndex\<close> of \<open>unified-server.js\<close>:
  \<open>indices[(curr + 1) % indices.length]\<close> with \<open>curr = indices.indexOf(current)\<close> (here \<open>currPos\<close>). For an
  empty list the remainder is \<open>NaN\<close> and the read yields \<open>undefined\<close>, modelled as
  \<open>None\<close>; \<open>curr = -1\<close> gives position \<open>0\<close>.
\<close>

definition getNextAuthIndex_unified :: "int list \<Rightarrow> int \<Rightarrow> int option" where
  "getNextAuthIndex_unified indices current =
     (if length indices = 0 then None
      else (case indexOf indices current of
              None \<Rightarrow> Some (indices ! (0 mod length indices))
            | Some currPos \<Rightarrow> Some (indices ! ((currPos + 1) mod length indices))))"

section \<open>Worker events\<close>

text \<open>
  A frame from the worker is a parsed JSON object; the handlers read some of its
  properties and never check its shape. A message is therefore a record of optional
  fields rather than a tagged variant: \<open>event_type\<close>, \<open>status\<close>, \<open>message\<close>, \<open>data\<close>,
  \<open>headers\<close>, and the property \<open>type\<close> (here \<open>mtype\<close>) that only the registry's end marker
  \<open>{ type: 'STREAM_END' }\<close> carries. The handlers compare the status with numbers, test it
  for truth and hand it to the response, whatever it is, so it is kept as the JSON scalar
  it is: absent, \<open>null\<close>, a boolean, a number or a string. Numbers are integers of the
  32-bit range, strings are ASCII, and a status that is an array or an object is outside
  the model. The other string fields are \<open>None\<close> when missing or not a string.
\<close>

datatype jsval = JUndefined | JNull | JBool bool | JNum int | JStr string

record msg =
  event_type :: "string option"
  status :: jsval
  message :: "string option"
  data :: "string option"
  mtype :: "string option"
  headers :: "(string \<times> string) list option"

definition emptyMsg :: msg where
  "emptyMsg = \<lparr>event_type = None, status = JUndefined, message = None, data = None, mtype = None,
     headers = None\<rparr>"

definition headerEvent :: "int \<Rightarrow> (string \<times> string) list \<Rightarrow> msg" where
  "headerEvent st hs = emptyMsg\<lparr>event_type := Some ''response_headers'', status := JNum st,
     headers := Some hs\<rparr>"

definition chunkEvent :: "string \<Rightarrow> msg" where
  "chunkEvent d = emptyMsg\<lparr>event_type := Some ''chunk'', data := Some d\<rparr>"

text \<open>An error event whose status is a number or is missing, and one with any status.\<close>

definition errorEventWith :: "jsval \<Rightarrow> string \<Rightarrow> msg" where
  "errorEventWith v m = emptyMsg\<lparr>event_type := Some ''error'', status := v, message := Some m\<rparr>"

definition errorEvent :: "int option \<Rightarrow> string \<Rightarrow> msg" where
  "errorEvent st m = errorEventWith (case st of None \<Rightarrow> JUndefined | Some n \<Rightarrow> JNum n) m"

definition STREAM_END :: msg where
  "STREAM_END = emptyMsg\<lparr>mtype := Some ''STREAM_END''\<rparr>"

text \<open>JavaScript truthiness of an optional string: present and not empty.\<close>

definition truthy :: "string option \<Rightarrow> bool" where
  "truthy s = (case s of None \<Rightarrow> False | Some t \<Rightarrow> t \<noteq> [])"

text \<open>JavaScript truthiness of a status: \<open>status || 500\<close> is the status unless it is falsy.\<close>

definition truthyVal :: "jsval \<Rightarrow> bool" where
  "truthyVal v = (case v of JUndefined \<Rightarrow> False | JNull \<Rightarrow> False | JBool b \<Rightarrow> b
                  | JNum n \<Rightarrow> n \<noteq> 0 | JStr t \<Rightarrow> t \<noteq> [])"

definition orDefault :: "jsval \<Rightarrow> int \<Rightarrow> jsval" where
  "orDefault v d = (if truthyVal v then v else JNum d)"

section \<open>Status reconciliation\<close>

text \<open>
  The two regular expressions of the full server, matched the way \<open>String.prototype.match\<close>
  does without the global flag: the leftmost position at which the pattern matches, the
  alternatives tried in order. \<open>\s\<close> is the ASCII white space and \<open>\d\<close> a decimal digit.
  Greedy \<open>\s+\<close> and \<open>\s*\<close> take all the white space: giving some back would put a
  white-space character where a digit or a colon is required.
\<close>

definition is_space :: "char \<Rightarrow> bool" where
  "is_space c = (c \<in> set [CHR '' '', CHR 0x09, CHR 0x0A, CHR 0x0B, CHR 0x0C, CHR 0x0D])"

definition is_digit :: "char \<Rightarrow> bool" where
  "is_digit c = (c \<in> set ''0123456789'')"

definition digit_val :: "char \<Rightarrow> int" where
  "digit_val c = int (of_char c) - 48"

fun strip_prefix :: "string \<Rightarrow> string \<Rightarrow> string option" where
  "strip_prefix [] s = Some s"
| "strip_prefix (p # ps) [] = None"
| "strip_prefix (p # ps) (c # cs) = (if p = c then strip_prefix ps cs else None)"

text \<open>\<open>(\d{3})\<close> followed by \<open>parseInt(..., 10)\<close>.\<close>

fun three_digits :: "string \<Rightarrow> int option" where
  "three_digits (a # b # c # rest) =
     (if is_digit a \<and> is_digit b \<and> is_digit c
      then Some (100 * digit_val a + 10 * digit_val b + digit_val c) else None)"
| "three_digits s = None"

text \<open>
  The number that a comparison such as \<open>status >= 400\<close> makes of a status: \<open>undefined\<close> is
  not a number (\<open>None\<close>), \<open>null\<close> and \<open>false\<close> are 0, \<open>true\<close> is 1, and a string is
  read as a numeral after its surrounding white space is dropped, the empty string being 0.
  The numerals read are the decimal integers with an optional sign; a string with a
  fraction, an exponent, a radix prefix or the word \<open>Infinity\<close> is outside the model and
  counts as not a number.
\<close>

definition trim :: "string \<Rightarrow> string" where
  "trim t = rev (dropWhile is_space (rev (dropWhile is_space t)))"

definition digitsValue :: "string \<Rightarrow> int" where
  "digitsValue t = foldl (\<lambda>acc ch. 10 * acc + digit_val ch) 0 t"

definition strToNumber :: "string \<Rightarrow> int option" where
  "strToNumber t =
     (case trim t of
        [] \<Rightarrow> Some 0
      | ch # r \<Rightarrow>
          if ch = CHR ''-'' \<and> r \<noteq> [] \<and> list_all is_digit r then Some (- digitsValue r)
          else if ch = CHR ''+'' \<and> r \<noteq> [] \<and> list_all is_digit r then Some (digitsValue r)
          else if list_all is_digit (ch # r) then Some (digitsValue (ch # r))
          else None)"

definition toNumber :: "jsval \<Rightarrow> int option" where
  "toNumber v = (case v of JUndefined \<Rightarrow> None | JNull \<Rightarrow> Some 0
                 | JBool b \<Rightarrow> Some (if b then 1 else 0) | JNum n \<Rightarrow> Some n
                 | JStr t \<Rightarrow> strToNumber t)"

text \<open>\<open>\s+\<close> and \<open>\s*\<close>: the rest of the text after the white space, if enough of it is there.\<close>

definition spaces1 :: "string \<Rightarrow> string option" where
  "spaces1 s = (case s of [] \<Rightarrow> None | c # cs \<Rightarrow> if is_space c then Some (dropWhile is_space cs) else None)"

definition spaces0 :: "string \<Rightarrow> string" where
  "spaces0 s = dropWhile is_space s"

definition orElse :: "'a option \<Rightarrow> 'a option \<Rightarrow> 'a option" where
  "orElse a b = (case a of Some x \<Rightarrow> Some x | None \<Rightarrow> b)"

text \<open>\<open>/(?:HTTP|status code)\s+(\d{3})/\<close> of \<open>_parseAndCorrectErrorDetails\<close>, at one position.\<close>

definition strictAfter :: "string \<Rightarrow> string \<Rightarrow> int option" where
  "strictAfter kw s =
     (case strip_prefix kw s of None \<Rightarrow> None
      | Some r \<Rightarrow> (case spaces1 r of None \<Rightarrow> None | Some r' \<Rightarrow> three_digits r'))"

definition strictHere :: "string \<Rightarrow> int option" where
  "strictHere s = orElse (strictAfter ''HTTP'' s) (strictAfter ''status code'' s)"

text \<open>
  \<open>/(?:HTTP|status code)\s*(\d{3})|"code"\s*:\s*(\d{3})/\<close> of
  \<open>_handleRequestFailureAndSwitch\<close>, at one position; the result is \<open>match[1] || match[2]\<close>.
\<close>

definition looseAfter :: "string \<Rightarrow> string \<Rightarrow> int option" where
  "looseAfter kw s =
     (case strip_prefix kw s of None \<Rightarrow> None | Some r \<Rightarrow> three_digits (spaces0 r))"

definition codeField :: "string \<Rightarrow> int option" where
  "codeField s =
     (case strip_prefix (CHR 0x22 # ''code'' @ [CHR 0x22]) s of None \<Rightarrow> None
      | Some r \<Rightarrow> (case strip_prefix '':'' (spaces0 r) of None \<Rightarrow> None
                   | Some r' \<Rightarrow> three_digits (spaces0 r')))"

definition looseHere :: "string \<Rightarrow> int option" where
  "looseHere s = orElse (orElse (looseAfter ''HTTP'' s) (looseAfter ''status code'' s)) (codeField s)"

text \<open>The leftmost position at which the pattern matches.\<close>

fun search :: "(string \<Rightarrow> int option) \<Rightarrow> string \<Rightarrow> int option" where
  "search here [] = here []"
| "search here (c # cs) = orElse (here (c # cs)) (search here cs)"

text \<open>
  \<open>_parseAndCorrectErrorDetails\<close>: a copy of the event whose status is replaced by the
  number found in the message when that number lies in 400..599 and differs (\<open>!==\<close>, so a
  string status differs from every number). A message that is missing, not a string or
  empty is left alone.
\<close>

definition parseAndCorrectErrorDetails :: "msg \<Rightarrow> msg" where
  "parseAndCorrectErrorDetails errorDetails =
     (case message errorDetails of
        None \<Rightarrow> errorDetails
      | Some str \<Rightarrow>
          if str = [] then errorDetails
          else (case search strictHere str of
                  None \<Rightarrow> errorDetails
                | Some parsedStatus \<Rightarrow>
                    if parsedStatus \<ge> 400 \<and> parsedStatus \<le> 599 then
                      (if status errorDetails \<noteq> JNum parsedStatus
                       then errorDetails\<lparr>status := JNum parsedStatus\<rparr>
                       else errorDetails)
                    else errorDetails))"

text \<open>
  The first lines of \<open>_handleRequestFailureAndSwitch\<close>, which reconcile once more, with the
  looser pattern, before the switching decision.
\<close>

definition correctedDetails :: "msg \<Rightarrow> msg" where
  "correctedDetails errorDetails =
     (case message errorDetails of
        None \<Rightarrow> errorDetails
      | Some str \<Rightarrow>
          if str = [] then errorDetails
          else (case search looseHere str of
                  None \<Rightarrow> errorDetails
                | Some parsedStatus \<Rightarrow>
                    if parsedStatus \<ge> 400 \<and> parsedStatus \<le> 599
                       \<and> status errorDetails \<noteq> JNum parsedStatus
                    then errorDetails\<lparr>status := JNum parsedStatus\<rparr>
                    else errorDetails))"


text \<open>The status that the message text carries, for each of the two patterns.\<close>

definition embeddedStatus :: "(string \<Rightarrow> int option) \<Rightarrow> msg \<Rightarrow> int option" where
  "embeddedStatus here e = (case message e of None \<Rightarrow> None | Some str \<Rightarrow> search here str)"

section \<open>Configuration, errors and the client response\<close>

text \<open>The configuration values that the request handler of the full server reads.\<close>

record config =
  maxRetries :: int
  retryDelay :: int
  failureThreshold :: int
  immediateSwitchStatusCodes :: "int list"

text \<open>The values of these four in the default object of \<open>_loadConfiguration\<close>.\<close>

definition defaultConfig :: config where
  "defaultConfig = \<lparr>maxRetries = 3, retryDelay = 2000, failureThreshold = 0,
     immediateSwitchStatusCodes = []\<rparr>"

text \<open>
  What can go wrong when the browser is started for an account, in the order in which
  \<open>launchBrowser\<close> checks: the executable is missing, \<open>getAuth\<close> yields nothing, the script
  file cannot be read, or a step inside the \<open>try\<close> block throws.
\<close>

datatype launch_outcome = ExeMissing | AuthMissing | ScriptUnreadable | InitFailed | Ready

text \<open>
  The exceptions of the server. The source tells them apart by their message text only:
  \<open>QueueTimeout\<close> is the queue's time-out error, the one whose text contains the word that
  \<open>_handleRequestError\<close> looks for, and \<open>QueueClosedError\<close> the error of a closed queue.
  \<open>UpstreamError\<close> and \<open>MaxRetriesReached\<close> are thrown by \<open>unified-server.js\<close> only:
  \<open>new Error(head.message)\<close> and \<open>new Error("Max retries reached")\<close>. \<open>InvalidStatusCode\<close>
  is the error of the HTTP library when the head of a response is to be written with a
  status it does not accept.
\<close>

datatype err =
    QueueTimeout
  | QueueClosedError
  | NoConnection
  | TypeError
  | NoAuthSource
  | CloseFailed
  | LaunchFailed launch_outcome
  | UpstreamError "string option"
  | MaxRetriesReached
  | InvalidStatusCode

text \<open>
  The texts that the proxy itself composes for the client, by the place that composes them
  and the values inserted.
\<close>

datatype notice =
    SwitchingOnStatus jsval
  | ThresholdReached int
  | SwitchedTo int
  | SwitchFailed err
  | RetryNotice jsval bool
  | FinalFailure jsval "string option"
  | RequestFailed "string option"
  | UpstreamMessage "string option"
  | ProcessingFailed err
  | ProxyError err
  | BackendUnparsable
  | BackendNoData
  | ProxyErrorOf err

text \<open>
  What is written to the client: bytes as they are, the event-stream frame that
  \<open>_sendErrorChunkToClient\<close> builds around a notice, a plain-text body, a JSON body, or
  the JSON object \<open>{ error: ... }\<close> of \<open>unified-server.js\<close>. \<open>ProxyErrorOf\<close> is the text
  that \<open>_handleFailure\<close> of that file composes.
\<close>

datatype out = Bytes string | ErrorChunk notice | PlainBody notice | JsonBody string | JsonError notice

record response =
  statusCode :: int
  resHeaders :: "(string \<times> string) list"
  headersSent :: bool
  writableEnded :: bool
  written :: "out list"

definition freshResponse :: response where
  "freshResponse = \<lparr>statusCode = 200, resHeaders = [], headersSent = False,
     writableEnded = False, written = []\<rparr>"

definition res_write :: "out \<Rightarrow> response \<Rightarrow> response" where
  "res_write x r = r\<lparr>headersSent := True, written := written r @ [x]\<rparr>"

definition res_end :: "response \<Rightarrow> response" where
  "res_end r = r\<lparr>headersSent := True, writableEnded := True\<rparr>"

text \<open>\<open>res.set\<close>: a header set again replaces its value.\<close>

definition res_set :: "string \<Rightarrow> string \<Rightarrow> response \<Rightarrow> response" where
  "res_set name v r = r\<lparr>resHeaders := AList.update name v (resHeaders r)\<rparr>"

text \<open>
  \<open>res.status(n).type('text/plain').send(message)\<close> and \<open>res.status(n).json(value)\<close>, for
  a status \<open>n\<close> that the HTTP library accepts.
\<close>

definition res_send :: "int \<Rightarrow> string \<Rightarrow> out \<Rightarrow> response \<Rightarrow> response" where
  "res_send n ctype body r =
     res_end (res_write body (res_set ''Content-Type'' ctype (r\<lparr>statusCode := n\<rparr>)))"

text \<open>
  \<open>_sendErrorResponse\<close> where the source calls it with one of the constants 500, 503 and
  504: nothing once the headers are out.
\<close>

definition sendError :: "int \<Rightarrow> notice \<Rightarrow> response \<Rightarrow> response" where
  "sendError k n r = (if \<not> headersSent r then res_send k ''text/plain'' (PlainBody n) r else r)"

text \<open>\<open>_sendErrorChunkToClient\<close>: one frame unless the response has ended.\<close>

definition sendErrorChunkToClient :: "notice \<Rightarrow> response \<Rightarrow> response" where
  "sendErrorChunkToClient n r = (if \<not> writableEnded r then res_write (ErrorChunk n) r else r)"

section \<open>The request handler's state and its surroundings\<close>

text \<open>
  What the handler cannot decide: the credentials on disk, how the \<open>k\<close>-th call of
  \<open>switchAccount\<close> goes (whether closing the old browser throws, and how the launch ends),
  whether a worker connection is registered, how many keep-alive timer callbacks run
  while the handler waits at its \<open>n\<close>-th \<open>await\<close>, what \<open>JSON.parse\<close> followed by
  \<open>res.json\<close> makes of a text (\<open>None\<close> when \<open>JSON.parse\<close> throws), and what the HTTP
  library makes of a status that is not a number (\<open>oddStatus\<close>: the status it sends, or
  \<open>None\<close> when it throws; the versions of the library differ in this).
\<close>

record world =
  auth :: "unit authSource"
  closeThrows :: "nat \<Rightarrow> bool"
  launch :: "nat \<Rightarrow> launch_outcome"
  connected :: bool
  ticks :: "nat \<Rightarrow> nat"
  jsonRoundTrip :: "string \<Rightarrow> string option"
  oddStatus :: "jsval \<Rightarrow> int option"

text \<open>
  The status line for a value handed to \<open>res.status\<close>: a number from 100 to 999 is sent as
  it is, any other number makes the library throw when the head is written.
\<close>

definition statusLine :: "world \<Rightarrow> jsval \<Rightarrow> int option" where
  "statusLine w v =
     (case v of JNum n \<Rightarrow> if 100 \<le> n \<and> n \<le> 999 then Some n else None | _ \<Rightarrow> oddStatus w v)"

text \<open>
  \<open>_sendErrorResponse(res, status, message)\<close> with a status taken from an event: nothing
  once the headers are out; otherwise \<open>res.status(status || 500).type('text/plain')\<close> and the
  \<open>send\<close>, which throws when the status is not accepted. \<open>Inl\<close> is that exception, with the
  response as the throw leaves it: nothing sent, and the content type set. (The status
  field is then whatever was handed over; every path from this exception sends a response
  with a status and a content type of its own, so the field is left as it was here.)
\<close>

definition sendErrorResponse :: "world \<Rightarrow> jsval \<Rightarrow> notice \<Rightarrow> response \<Rightarrow> (err \<times> response) + response" where
  "sendErrorResponse w st n r =
     (if \<not> headersSent r then
        (case statusLine w (orDefault st 500) of
           Some k \<Rightarrow> Inr (res_send k ''text/plain'' (PlainBody n) r)
         | None \<Rightarrow> Inl (InvalidStatusCode, res_set ''Content-Type'' ''text/plain'' r))
      else Inr r)"

text \<open>The effects of a request on its surroundings, in the order in which they happen.\<close>

datatype action = Forward | Sleep int | SwitchAccount int

text \<open>
  One request's view of the server: the handler's \<open>failureCount\<close> and \<open>isAuthSwitching\<close>,
  the browser manager's \<open>browser\<close> (is there one) and \<open>currentAuthIndex\<close>, the request's
  response \<open>res\<close> and its keep-alive timer \<open>connectionMaintainer\<close> (the chunk it writes,
  while it is set), and two records kept for the proofs: the \<open>trace\<close> of effects and the
  number \<open>clock\<close> of \<open>await\<close>s passed. Other requests show only in the state a request
  starts from, for instance \<open>isAuthSwitching\<close> set by a rotation that is under way.
\<close>

record sys =
  failureCount :: int
  isAuthSwitching :: bool
  browser :: bool
  currentAuthIndex :: int
  res :: response
  connectionMaintainer :: "string option"
  trace :: "action list"
  clock :: nat

definition onRes :: "(response \<Rightarrow> response) \<Rightarrow> sys \<Rightarrow> sys" where
  "onRes f s = s\<lparr>res := f (res s)\<rparr>"

definition record_action :: "action \<Rightarrow> sys \<Rightarrow> sys" where
  "record_action a s = s\<lparr>trace := trace s @ [a]\<rparr>"

text \<open>
  An \<open>await\<close>: while the handler is suspended the keep-alive timer, if set, runs
  \<open>if (!res.writableEnded) res.write(keepAliveChunk)\<close> as often as it fires.
\<close>

definition await :: "world \<Rightarrow> sys \<Rightarrow> sys" where
  "await w s =
     (let s' = s\<lparr>clock := clock s + 1\<rparr> in
      case connectionMaintainer s of
        None \<Rightarrow> s'
      | Some keepAliveChunk \<Rightarrow>
          if writableEnded (res s) then s'
          else onRes (\<lambda>r. r\<lparr>headersSent := (if ticks w (clock s) = 0 then headersSent r else True),
                          written := written r @ replicate (ticks w (clock s)) (Bytes keepAliveChunk)\<rparr>) s')"

definition isSwitch :: "action \<Rightarrow> bool" where
  "isSwitch a = (case a of SwitchAccount n \<Rightarrow> True | _ \<Rightarrow> False)"

definition switches :: "sys \<Rightarrow> nat" where
  "switches s = length (filter isSwitch (trace s))"

section \<open>Browser manager\<close>

text \<open>
  \<open>closeBrowser\<close>: closes the browser if there is one; \<open>browser.close()\<close> may throw, and
  then the field keeps its value.
\<close>

definition closeBrowser :: "world \<Rightarrow> nat \<Rightarrow> sys \<Rightarrow> err + sys" where
  "closeBrowser w k s =
     (if browser s then (if closeThrows w k then Inl CloseFailed else Inr (s\<lparr>browser := False\<rparr>))
      else Inr s)"

text \<open>
  \<open>launchBrowser\<close>: returns at once when a browser is running. The three checks before the
  \<open>try\<close> block throw without touching the state; a failure inside the block closes what
  was opened, clears \<open>browser\<close> and throws again; only the last statement of the block
  assigns \<open>currentAuthIndex\<close>. The state after a throw is the second component.
\<close>

definition launchBrowser :: "launch_outcome \<Rightarrow> int \<Rightarrow> sys \<Rightarrow> (err + unit) \<times> sys" where
  "launchBrowser outcome authIndex s =
     (if browser s then (Inr (), s)
      else (case outcome of
              ExeMissing \<Rightarrow> (Inl (LaunchFailed ExeMissing), s)
            | AuthMissing \<Rightarrow> (Inl (LaunchFailed AuthMissing), s)
            | ScriptUnreadable \<Rightarrow> (Inl (LaunchFailed ScriptUnreadable), s)
            | InitFailed \<Rightarrow> (Inl (LaunchFailed InitFailed), s\<lparr>browser := False\<rparr>)
            | Ready \<Rightarrow> (Inr (), s\<lparr>browser := True, currentAuthIndex := authIndex\<rparr>)))"

text \<open>\<open>switchAccount\<close>: \<open>await closeBrowser(); await launchBrowser(newAuthIndex)\<close>.\<close>

definition switchAccount :: "world \<Rightarrow> int \<Rightarrow> sys \<Rightarrow> (err + unit) \<times> sys" where
  "switchAccount w newAuthIndex s =
     (let k = switches s; s1 = await w (record_action (SwitchAccount newAuthIndex) s) in
      case closeBrowser w k s1 of
        Inl e \<Rightarrow> (Inl e, s1)
      | Inr s2 \<Rightarrow> launchBrowser (launch w k) newAuthIndex s2)"

section \<open>Failover\<close>

text \<open>
  \<open>_switchToNextAuth\<close> has one \<open>await\<close>, on \<open>switchAccount\<close>, and while it waits there other
  requests run on the same handler. So it is modelled in two parts. \<open>switchBegin\<close> is the
  part before the wait: a return at once while a switch is under way; otherwise the flag is
  set and the next index chosen (with the flag cleared and an exception when there is none),
  and the call is suspended with that index. \<open>switchResume\<close> is the part from the wait on,
  run on the state as the other requests have left it: the account switched, the counter
  reset when that succeeded, and the flag cleared by the \<open>finally\<close>.
\<close>

datatype pending = Returned "(err + unit) \<times> sys" | Suspended int sys

definition switchBegin :: "world \<Rightarrow> sys \<Rightarrow> pending" where
  "switchBegin w s =
     (if isAuthSwitching s then Returned (Inr (), s)
      else
        (let s1 = s\<lparr>isAuthSwitching := True\<rparr> in
         case getNextAuthIndex (getAvailableIndices (auth w)) (currentAuthIndex s1) of
           None \<Rightarrow> Returned (Inl NoAuthSource, s1\<lparr>isAuthSwitching := False\<rparr>)
         | Some nextAuthIndex \<Rightarrow> Suspended nextAuthIndex s1))"

definition switchResume :: "world \<Rightarrow> int \<Rightarrow> sys \<Rightarrow> (err + unit) \<times> sys" where
  "switchResume w nextAuthIndex s1 =
     (case switchAccount w nextAuthIndex s1 of
        (Inr u, s2) \<Rightarrow> (Inr (), s2\<lparr>failureCount := 0, isAuthSwitching := False\<rparr>)
      | (Inl e, s2) \<Rightarrow> (Inl e, s2\<lparr>isAuthSwitching := False\<rparr>))"

text \<open>
  A switch during whose wait the other requests do \<open>others\<close> to the shared state, and the
  switch that nothing interrupts, as a request's own failure handling sees it.
\<close>

definition switchDuring :: "world \<Rightarrow> (sys \<Rightarrow> sys) \<Rightarrow> sys \<Rightarrow> (err + unit) \<times> sys" where
  "switchDuring w others s =
     (case switchBegin w s of
        Returned r \<Rightarrow> r
      | Suspended nextAuthIndex s1 \<Rightarrow> switchResume w nextAuthIndex (others s1))"

definition switchToNextAuth :: "world \<Rightarrow> sys \<Rightarrow> (err + unit) \<times> sys" where
  "switchToNextAuth w s = switchDuring w (\<lambda>s1. s1) s"

text \<open>
  The \<open>try\<close>/\<open>catch\<close> around \<open>_switchToNextAuth\<close> in \<open>_handleRequestFailureAndSwitch\<close>: the
  error is caught there; the client is told when \<open>res\<close> was passed (\<open>toClient\<close>).
\<close>

definition trySwitch :: "world \<Rightarrow> bool \<Rightarrow> sys \<Rightarrow> sys" where
  "trySwitch w toClient s =
     (case switchToNextAuth w s of
        (Inr u, s') \<Rightarrow>
          if toClient then onRes (sendErrorChunkToClient (SwitchedTo (currentAuthIndex s'))) s' else s'
      | (Inl switchError, s') \<Rightarrow>
          if toClient then onRes (sendErrorChunkToClient (SwitchFailed switchError)) s' else s')"

text \<open>
  \<open>immediateSwitchStatusCodes.includes(status)\<close>: the configured codes are numbers, and
  \<open>includes\<close> does not convert.
\<close>

definition isImmediateSwitch :: "config \<Rightarrow> msg \<Rightarrow> bool" where
  "isImmediateSwitch c details =
     (case status details of JNum st \<Rightarrow> st \<in> set (immediateSwitchStatusCodes c) | _ \<Rightarrow> False)"

text \<open>
  \<open>_handleRequestFailureAndSwitch(errorDetails, res)\<close>; \<open>toClient\<close> says that \<open>res\<close> is
  not null.
\<close>

definition handleRequestFailureAndSwitch :: "config \<Rightarrow> world \<Rightarrow> msg \<Rightarrow> bool \<Rightarrow> sys \<Rightarrow> sys" where
  "handleRequestFailureAndSwitch c w errorDetails toClient s =
     (let details = correctedDetails errorDetails in
      if isImmediateSwitch c details then
        trySwitch w toClient
          (if toClient then onRes (sendErrorChunkToClient (SwitchingOnStatus (status details))) s else s)
      else if failureThreshold c > 0 then
        (let s1 = s\<lparr>failureCount := failureCount s + 1\<rparr> in
         if failureCount s1 \<ge> failureThreshold c then
           trySwitch w toClient
             (if toClient then onRes (sendErrorChunkToClient (ThresholdReached (failureCount s1))) s1 else s1)
         else s1)
      else s)"

section \<open>The mailbox as a request sees it\<close>

text \<open>
  A request reads its mailbox through \<open>dequeue\<close> only. What each call yields is given by a
  script: an event, a time-out, or the error of a queue that was closed meanwhile. A closed
  queue stays closed, and when nothing more happens the timer of the call fires.
\<close>

datatype deq = Got msg | TimedOut | Closed

fun dequeue :: "deq list \<Rightarrow> (err + msg) \<times> deq list" where
  "dequeue [] = (Inl QueueTimeout, [])"
| "dequeue (Got m # q) = (Inr m, q)"
| "dequeue (TimedOut # q) = (Inl QueueTimeout, q)"
| "dequeue (Closed # q) = (Inl QueueClosedError, Closed # q)"

section \<open>Request dispatcher of the full server\<close>

text \<open>
  Of the inbound request the handlers read the path; \<open>keepAliveChunk\<close> stands for the
  result of \<open>_getKeepAliveChunk(req)\<close>, a frame whose content no property here depends on.
\<close>

record req =
  path :: string
  keepAliveChunk :: string

text \<open>\<open>String.prototype.includes\<close> (\<open>includes\<close> is a keyword of the prover).\<close>

fun includes_str :: "string \<Rightarrow> string \<Rightarrow> bool" where
  "includes_str [] sub = (sub = [])"
| "includes_str (c # cs) sub =
     (case strip_prefix sub (c # cs) of Some r \<Rightarrow> True | None \<Rightarrow> includes_str cs sub)"

text \<open>
  The test of both retry loops:
  \<open>event_type === 'error' && status >= 400 && status <= 599\<close>. The two comparisons
  convert the status to a number, so the string \<open>'500'\<close> passes as the number 500 does.
\<close>

definition retryable :: "msg \<Rightarrow> bool" where
  "retryable m = (event_type m = Some ''error''
     \<and> (case toNumber (status m) of None \<Rightarrow> False | Some st \<Rightarrow> st \<ge> 400 \<and> st \<le> 599))"

text \<open>\<open>_forwardRequest\<close>: sends the descriptor, or throws when no connection is registered.\<close>

definition forwardRequest :: "world \<Rightarrow> sys \<Rightarrow> err + sys" where
  "forwardRequest w s = (if connected w then Inr (record_action Forward s) else Inl NoConnection)"

text \<open>
  How the retry loop ends: normally, with \<open>lastMessage\<close> (undefined, here \<open>None\<close>, when the
  body never ran) and \<open>requestFailed\<close>, or by an exception. Either way with the state
  reached and the rest of the script.
\<close>

datatype loop_result =
    LoopDone "msg option" bool sys "deq list"
  | LoopThrew err sys "deq list"

datatype step = Retry sys "deq list" | Stop loop_result

text \<open>
  The body of the retry loop, the same in \<open>_handlePseudoStreamResponse\<close> and
  \<open>_handleRealStreamResponse\<close> up to what the client is told: the former passes \<open>res\<close> to
  the failure handler and writes a notice when the request is a stream request
  (\<open>toClient\<close>), the latter never does. \<open>Retry\<close> is the \<open>continue\<close> after the sleep,
  \<open>Stop\<close> the \<open>break\<close> or the exception.
\<close>

definition attemptOnce :: "config \<Rightarrow> world \<Rightarrow> bool \<Rightarrow> int \<Rightarrow> deq list \<Rightarrow> sys \<Rightarrow> step" where
  "attemptOnce c w toClient attempt q s =
     (case forwardRequest w s of
        Inl e \<Rightarrow> Stop (LoopThrew e s q)
      | Inr s1 \<Rightarrow>
          (case dequeue q of
             (Inl e, q') \<Rightarrow> Stop (LoopThrew e (await w s1) q')
           | (Inr lastMessage, q') \<Rightarrow>
               (let s2 = await w s1 in
                if retryable lastMessage then
                  (let correctedMessage = parseAndCorrectErrorDetails lastMessage;
                       s3 = handleRequestFailureAndSwitch c w correctedMessage toClient s2;
                       s4 = (if toClient
                             then onRes (sendErrorChunkToClient
                                    (RetryNotice (status correctedMessage) (attempt < maxRetries c))) s3
                             else s3)
                   in if attempt < maxRetries c
                      then Retry (await w (record_action (Sleep (retryDelay c)) s4)) q'
                      else Stop (LoopDone (Some lastMessage) True s4 q'))
                else Stop (LoopDone (Some lastMessage) False s2 q'))))"

text \<open>\<open>for (let attempt = 1; attempt <= this.maxRetries; attempt++)\<close>, from \<open>attempt\<close> on.\<close>

function retryLoop :: "config \<Rightarrow> world \<Rightarrow> bool \<Rightarrow> int \<Rightarrow> deq list \<Rightarrow> sys \<Rightarrow> loop_result" where
  "retryLoop c w toClient attempt q s =
     (if attempt \<le> maxRetries c then
        (case attemptOnce c w toClient attempt q s of
           Retry s' q' \<Rightarrow> retryLoop c w toClient (attempt + 1) q' s'
         | Stop r \<Rightarrow> r)
      else LoopDone None False s q)"
  by pat_completeness auto
termination
  by (relation "measure (\<lambda>(c, w, toClient, attempt, q, s). nat (maxRetries c + 1 - attempt))") auto

declare retryLoop.simps [simp del]

text \<open>
  \<open>_handleRequestError\<close>; \<open>fake\<close> says that the server's streaming mode is \<open>fake\<close>. Of all
  the errors only the queue's time-out has the text that selects 504.
\<close>

definition handleRequestError :: "bool \<Rightarrow> err \<Rightarrow> response \<Rightarrow> response" where
  "handleRequestError fake error r =
     (if headersSent r then
        (let r1 = (if fake then sendErrorChunkToClient (ProcessingFailed error) r else r)
         in if \<not> writableEnded r1 then res_end r1 else r1)
      else sendError (if error = QueueTimeout then 504 else 500) (ProxyError error) r)"

definition dataFrame :: "string \<Rightarrow> out" where
  "dataFrame d = Bytes (''data: '' @ d @ [CHR 0x0A, CHR 0x0A])"

definition doneFrame :: out where
  "doneFrame = Bytes (''data: [DONE]'' @ [CHR 0x0A, CHR 0x0A])"

text \<open>
  The delivery at the end of \<open>_handlePseudoStreamResponse\<close>: for a stream request one frame
  with the data (if there is any) and the terminator; otherwise the data parsed and sent as
  one JSON body, or an error 500 when it does not parse or is missing.
\<close>

definition deliver :: "world \<Rightarrow> bool \<Rightarrow> msg \<Rightarrow> response \<Rightarrow> response" where
  "deliver w isStreamRequest dataMessage r =
     (if isStreamRequest then
        res_write doneFrame
          (case data dataMessage of
             None \<Rightarrow> r
           | Some d \<Rightarrow> if d = [] then r else res_write (dataFrame d) r)
      else
        (case data dataMessage of
           None \<Rightarrow> sendError 500 BackendNoData r
         | Some d \<Rightarrow>
             if d = [] then sendError 500 BackendNoData r
             else (case jsonRoundTrip w d of
                     Some jsonData \<Rightarrow> res_send 200 ''application/json'' (JsonBody jsonData) r
                   | None \<Rightarrow> sendError 500 BackendUnparsable r)))"

text \<open>
  The \<open>try\<close> block of \<open>_handlePseudoStreamResponse\<close>: the retry loop, the final error if the
  loop failed (its \<open>send\<close> may throw), and otherwise the reset of the counter, the two
  further \<open>dequeue\<close>s and the delivery. \<open>Inl\<close> is an exception, with the state in which it
  was thrown.
\<close>

definition pseudoTry :: "config \<Rightarrow> world \<Rightarrow> bool \<Rightarrow> deq list \<Rightarrow> sys \<Rightarrow> (err \<times> sys) + sys" where
  "pseudoTry c w isStreamRequest q s =
     (case retryLoop c w isStreamRequest 1 q s of
        LoopThrew e t q' \<Rightarrow> Inl (e, t)
      | LoopDone None requestFailed t q' \<Rightarrow> Inl (TypeError, t)
      | LoopDone (Some lastMessage) requestFailed t q' \<Rightarrow>
          if event_type lastMessage = Some ''error'' \<or> requestFailed then
            (let finalError = parseAndCorrectErrorDetails lastMessage in
             if \<not> headersSent (res t) then
               (case sendErrorResponse w (status finalError) (RequestFailed (message finalError)) (res t) of
                  Inr r \<Rightarrow> Inr (t\<lparr>res := r\<rparr>)
                | Inl (e, r) \<Rightarrow> Inl (e, t\<lparr>res := r\<rparr>))
             else Inr (onRes (sendErrorChunkToClient
                         (FinalFailure (status finalError) (message finalError))) t))
          else
            (let t1 = t\<lparr>failureCount := 0\<rparr> in
             case dequeue q' of
               (Inl e, q2) \<Rightarrow> Inl (e, await w t1)
             | (Inr dataMessage, q2) \<Rightarrow>
                 (case dequeue q2 of
                    (Inl e, q3) \<Rightarrow> Inl (e, await w (await w t1))
                  | (Inr endMessage, q3) \<Rightarrow>
                      Inr (onRes (deliver w isStreamRequest dataMessage) (await w (await w t1))))))"

text \<open>
  \<open>_handlePseudoStreamResponse\<close>: for a stream request (the path contains \<open>:stream\<close>) the
  response is opened as an event stream and the keep-alive timer started; then the \<open>try\<close>
  block, the \<open>catch\<close>, and the \<open>finally\<close> that stops the timer and ends the response.
\<close>

definition openEventStream :: "req \<Rightarrow> sys \<Rightarrow> sys" where
  "openEventStream rq s0 =
     (onRes (\<lambda>r. res_set ''Connection'' ''keep-alive''
               (res_set ''Cache-Control'' ''no-cache''
                 (res_set ''Content-Type'' ''text/event-stream'' (r\<lparr>statusCode := 200\<rparr>)))) s0)
       \<lparr>connectionMaintainer := Some (keepAliveChunk rq)\<rparr>"

definition handlePseudoStreamResponse :: "config \<Rightarrow> world \<Rightarrow> req \<Rightarrow> deq list \<Rightarrow> sys \<Rightarrow> sys" where
  "handlePseudoStreamResponse c w rq q s0 =
     (let isStreamRequest = includes_str (path rq) '':stream'';
          s = (if isStreamRequest then openEventStream rq s0 else s0);
          s' = (case pseudoTry c w isStreamRequest q s of
                  Inr t \<Rightarrow> t
                | Inl (error, t) \<Rightarrow>
                    if \<not> headersSent (res t) then onRes (handleRequestError True error) t
                    else onRes (sendErrorChunkToClient (ProcessingFailed error)) t)
      in (onRes (\<lambda>r. if \<not> writableEnded r then res_end r else r) s')\<lparr>connectionMaintainer := None\<rparr>)"

text \<open>ASCII \<open>toLowerCase\<close>, for the header names.\<close>

definition lowerChar :: "char \<Rightarrow> char" where
  "lowerChar ch = (if ch \<in> set ''ABCDEFGHIJKLMNOPQRSTUVWXYZ'' then char_of (of_char ch + (32::nat)) else ch)"

text \<open>
  \<open>_setResponseHeaders\<close>: \<open>res.status(headerMessage.status || 200)\<close> and every header but
  \<open>content-length\<close>. Nothing is sent yet; the first component says whether the HTTP library
  will accept the status when the head is written.
\<close>

definition relayHeader :: "string \<times> string \<Rightarrow> response \<Rightarrow> response" where
  "relayHeader h r =
     (if map lowerChar (fst h) \<noteq> ''content-length'' then res_set (fst h) (snd h) r else r)"

definition setResponseHeaders :: "world \<Rightarrow> msg \<Rightarrow> response \<Rightarrow> bool \<times> response" where
  "setResponseHeaders w headerMessage r =
     (let hs = (case headers headerMessage of None \<Rightarrow> [] | Some hs \<Rightarrow> hs) in
      case statusLine w (orDefault (status headerMessage) 200) of
        Some k \<Rightarrow> (True, fold relayHeader hs (r\<lparr>statusCode := k\<rparr>))
      | None \<Rightarrow> (False, fold relayHeader hs r))"

text \<open>
  Writing the head: \<open>res.write\<close> and \<open>res.end\<close> throw when the head is not out yet and the
  status set is not accepted (\<open>accepted\<close> is the first component above).
\<close>

definition headThrows :: "bool \<Rightarrow> response \<Rightarrow> bool" where
  "headThrows accepted r = (\<not> accepted \<and> \<not> headersSent r)"

text \<open>
  The \<open>while (true)\<close> loop of \<open>_handleRealStreamResponse\<close>, one \<open>dequeue(30000)\<close> per round,
  written by the cases of \<open>dequeue\<close>: the end marker leaves the loop, a chunk with data is
  written as it is, an exception (of the queue, or of the write) leaves the loop with it.
\<close>

fun streamLoop :: "world \<Rightarrow> bool \<Rightarrow> deq list \<Rightarrow> sys \<Rightarrow> err option \<times> sys" where
  "streamLoop w accepted [] s = (Some QueueTimeout, await w s)"
| "streamLoop w accepted (TimedOut # q) s = (Some QueueTimeout, await w s)"
| "streamLoop w accepted (Closed # q) s = (Some QueueClosedError, await w s)"
| "streamLoop w accepted (Got dataMessage # q) s =
     (if mtype dataMessage = Some ''STREAM_END'' then (None, await w s)
      else (case data dataMessage of
              None \<Rightarrow> streamLoop w accepted q (await w s)
            | Some d \<Rightarrow>
                if d = [] then streamLoop w accepted q (await w s)
                else if headThrows accepted (res (await w s)) then (Some InvalidStatusCode, await w s)
                else streamLoop w accepted q (onRes (res_write (Bytes d)) (await w s))))"

text \<open>
  \<open>_handleRealStreamResponse\<close>: the retry loop, the error response if it failed, otherwise
  the counter reset, the header relayed and the chunks streamed. Around the streaming loop
  the \<open>catch\<close> swallows the queue's time-out and throws every other error again, and the
  \<open>finally\<close> ends the response; when that \<open>res.end()\<close> throws, its exception is the one that
  leaves the handler.
\<close>

definition handleRealStreamResponse :: "config \<Rightarrow> world \<Rightarrow> deq list \<Rightarrow> sys \<Rightarrow> (err \<times> sys) + sys" where
  "handleRealStreamResponse c w q s =
     (case retryLoop c w False 1 q s of
        LoopThrew e t q' \<Rightarrow> Inl (e, t)
      | LoopDone None requestFailed t q' \<Rightarrow> Inl (TypeError, t)
      | LoopDone (Some headerMessage) requestFailed t q' \<Rightarrow>
          if event_type headerMessage = Some ''error'' \<or> requestFailed then
            (let finalError = parseAndCorrectErrorDetails headerMessage in
             case sendErrorResponse w (status finalError) (UpstreamMessage (message finalError)) (res t) of
               Inr r \<Rightarrow> Inr (t\<lparr>res := r\<rparr>)
             | Inl (e, r) \<Rightarrow> Inl (e, t\<lparr>res := r\<rparr>))
          else
            (let (accepted, r1) = setResponseHeaders w headerMessage (res t);
                 t1 = t\<lparr>failureCount := 0, res := r1\<rparr>;
                 (thrown, t2) = streamLoop w accepted q' t1
             in if \<not> writableEnded (res t2) \<and> headThrows accepted (res t2)
                then Inl (InvalidStatusCode, t2)
                else
                  (let t3 = onRes (\<lambda>r. if \<not> writableEnded r then res_end r else r) t2
                   in case thrown of
                        None \<Rightarrow> Inr t3
                      | Some error \<Rightarrow> if error \<noteq> QueueTimeout then Inl (error, t3) else Inr t3)))"

text \<open>
  \<open>processRequest\<close>, without the statistics: 503 when no worker is connected; otherwise the
  handler of the server's streaming mode, whose exception ends in \<open>_handleRequestError\<close>.
\<close>

definition processRequest :: "config \<Rightarrow> world \<Rightarrow> bool \<Rightarrow> req \<Rightarrow> deq list \<Rightarrow> sys \<Rightarrow> sys" where
  "processRequest c w fake rq q s =
     (if \<not> connected w then onRes (sendError 503 (ProxyError NoConnection)) s
      else if fake then handlePseudoStreamResponse c w rq q s
      else (case handleRealStreamResponse c w q s of
              Inr t \<Rightarrow> t
            | Inl (error, t) \<Rightarrow> onRes (handleRequestError False error) t))"

section \<open>Request handler of unified-server.js\<close>

text \<open>
  The second server file has a request handler of its own. It shares the state of the full
  server's handler except for the switching flag, which it does not have, and it reads
  \<open>maxRetries\<close>, \<open>retryDelay\<close> and \<open>failureThreshold\<close> of the configuration; the
  configuration's \<open>immediateSwitchStatusCodes\<close> are loaded by \<open>_loadConfig\<close> and read nowhere.
  Its browser manager closes and launches as the full server's does, with fewer places that
  throw, so \<open>switchAccount\<close> stands for both; a missing next index makes the launch fail at
  \<open>getAuth\<close>.
\<close>

definition switchNext_unified :: "world \<Rightarrow> sys \<Rightarrow> (err + unit) \<times> sys" where
  "switchNext_unified w s =
     (case getNextAuthIndex_unified (getAvailableIndices (auth w)) (currentAuthIndex s) of
        Some n \<Rightarrow> switchAccount w n s
      | None \<Rightarrow>
          (case closeBrowser w (switches s) (await w s) of
             Inl e \<Rightarrow> (Inl e, await w s)
           | Inr s' \<Rightarrow> (Inl (LaunchFailed AuthMissing), s')))"

text \<open>
  \<open>_handleFailure(e, res, isStream)\<close>: the counter is raised on every call; at the
  threshold the account is switched and the counter reset when that worked; then the client
  is told, in-band for a stream and otherwise by a 500 if the headers are not out yet.
\<close>

definition handleFailure_unified :: "config \<Rightarrow> world \<Rightarrow> err \<Rightarrow> bool \<Rightarrow> sys \<Rightarrow> sys" where
  "handleFailure_unified c w e isStream s =
     (let s1 = s\<lparr>failureCount := failureCount s + 1\<rparr>;
          s2 = (if failureThreshold c > 0 \<and> failureCount s1 \<ge> failureThreshold c then
                  (case switchNext_unified w s1 of
                     (Inr u, t) \<Rightarrow> t\<lparr>failureCount := 0\<rparr>
                   | (Inl err, t) \<Rightarrow> t)
                else s1)
      in if isStream then onRes (\<lambda>r. res_end (res_write (ErrorChunk (ProxyErrorOf e)) r)) s2
         else if \<not> headersSent (res s2)
           then onRes (res_send 500 ''application/json'' (JsonError (ProxyErrorOf e))) s2
         else s2)"

text \<open>
  The \<open>while (true)\<close> loop of \<open>_handleRealStream\<close>, by the cases of \<open>dequeue\<close>; the result
  \<open>Some e\<close> is the exception that left it.
\<close>

fun streamLoop_unified :: "world \<Rightarrow> bool \<Rightarrow> deq list \<Rightarrow> sys \<Rightarrow> err option \<times> sys" where
  "streamLoop_unified w accepted [] s = (Some QueueTimeout, await w s)"
| "streamLoop_unified w accepted (TimedOut # q) s = (Some QueueTimeout, await w s)"
| "streamLoop_unified w accepted (Closed # q) s = (Some QueueClosedError, await w s)"
| "streamLoop_unified w accepted (Got m # q) s =
     (if mtype m = Some ''STREAM_END'' then (None, await w s)
      else (case data m of
              None \<Rightarrow> streamLoop_unified w accepted q (await w s)
            | Some d \<Rightarrow>
                if d = [] then streamLoop_unified w accepted q (await w s)
                else if headThrows accepted (res (await w s)) then (Some InvalidStatusCode, await w s)
                else streamLoop_unified w accepted q (onRes (res_write (Bytes d)) (await w s))))"

definition relayHeader_unified :: "string \<times> string \<Rightarrow> response \<Rightarrow> response" where
  "relayHeader_unified h r = (if fst h \<noteq> ''content-length'' then res_set (fst h) (snd h) r else r)"

text \<open>
  \<open>_handleRealStream\<close>: one send, no retry. An error event is thrown as an exception; the
  header is relayed (every header but the one named exactly \<open>content-length\<close>, then the three
  event-stream headers), the counter reset and the chunks streamed; \<open>res.end()\<close> follows the
  loop inside the \<open>try\<close> block. Whatever is thrown, the time-out of a chunk wait and the
  error of a head that cannot be written included, goes to \<open>_handleFailure\<close>.
\<close>

definition handleRealStream_unified :: "config \<Rightarrow> world \<Rightarrow> deq list \<Rightarrow> sys \<Rightarrow> sys" where
  "handleRealStream_unified c w q s =
     (case forwardRequest w s of
        Inl e \<Rightarrow> handleFailure_unified c w e False s
      | Inr s1 \<Rightarrow>
          (case dequeue q of
             (Inl e, q') \<Rightarrow> handleFailure_unified c w e False (await w s1)
           | (Inr head, q') \<Rightarrow>
               if event_type head = Some ''error''
               then handleFailure_unified c w (UpstreamError (message head)) False (await w s1)
               else
                 (let line = statusLine w (orDefault (status head) 200);
                      accepted = (line \<noteq> None);
                      relay = (\<lambda>r. res_set ''Connection'' ''keep-alive''
                                 (res_set ''Cache-Control'' ''no-cache''
                                   (res_set ''Content-Type'' ''text/event-stream''
                                     (fold relayHeader_unified
                                        (case headers head of None \<Rightarrow> [] | Some hs \<Rightarrow> hs)
                                        (case line of None \<Rightarrow> r | Some n \<Rightarrow> r\<lparr>statusCode := n\<rparr>)))));
                      s2 = (onRes relay (await w s1))\<lparr>failureCount := 0\<rparr>
                  in case streamLoop_unified w accepted q' s2 of
                       (None, s3) \<Rightarrow>
                         if headThrows accepted (res s3)
                         then handleFailure_unified c w InvalidStatusCode False s3
                         else onRes res_end s3
                     | (Some e, s3) \<Rightarrow> handleFailure_unified c w e False s3)))"

text \<open>
  The body of the \<open>for\<close> loop of \<open>_handlePseudoStream\<close>, from round \<open>i\<close> on: every error
  event, whatever its status, is followed by the sleep and the next round; any other first
  event stops the timer, resets the counter, and is followed by one more \<open>dequeue\<close>, the
  frames, the terminator and \<open>res.end()\<close>. The result \<open>Inl\<close> is the exception that goes to the
  \<open>catch\<close>, with the state in which it is thrown.
\<close>

function pseudoLoop_unified ::
  "config \<Rightarrow> world \<Rightarrow> int \<Rightarrow> msg option \<Rightarrow> deq list \<Rightarrow> sys \<Rightarrow> (err \<times> sys) + sys" where
  "pseudoLoop_unified c w i lastErr q s =
     (if i < maxRetries c then
        (case forwardRequest w s of
           Inl e \<Rightarrow> Inl (e, s)
         | Inr s1 \<Rightarrow>
             (case dequeue q of
                (Inl e, q') \<Rightarrow> Inl (e, await w s1)
              | (Inr m, q') \<Rightarrow>
                  if event_type m = Some ''error''
                  then pseudoLoop_unified c w (i + 1) (Some m) q'
                         (await w (record_action (Sleep (retryDelay c)) (await w s1)))
                  else
                    (let s2 = (await w s1)\<lparr>connectionMaintainer := None, failureCount := 0\<rparr> in
                     case dequeue q' of
                       (Inl e, q2) \<Rightarrow> Inl (e, await w s2)
                     | (Inr dataMsg, q2) \<Rightarrow>
                         Inr (onRes (\<lambda>r. res_end (res_write doneFrame
                                (let r1 = (case data m of None \<Rightarrow> r
                                           | Some d \<Rightarrow> if d = [] then r else res_write (dataFrame d) r)
                                 in case data dataMsg of None \<Rightarrow> r1
                                    | Some d \<Rightarrow> if d = [] then r1 else res_write (dataFrame d) r1)))
                              (await w s2)))))
      else Inl (case lastErr of
                  None \<Rightarrow> MaxRetriesReached
                | Some m \<Rightarrow> (case message m of None \<Rightarrow> MaxRetriesReached
                             | Some t \<Rightarrow> if t = [] then MaxRetriesReached else UpstreamError (Some t)),
                s))"
  by pat_completeness auto
termination
  by (relation "measure (\<lambda>(c, w, i, lastErr, q, s). nat (maxRetries c - i))") auto

declare pseudoLoop_unified.simps [simp del]

text \<open>
  \<open>_handlePseudoStream\<close>: \<open>res.writeHead(200, ...)\<close> sends the event-stream headers at once,
  whatever the path of the request; the timer writes the keep-alive chunk; the \<open>catch\<close>
  stops the timer and calls \<open>_handleFailure\<close> with \<open>isStream\<close> set.
\<close>

definition handlePseudoStream_unified :: "config \<Rightarrow> world \<Rightarrow> req \<Rightarrow> deq list \<Rightarrow> sys \<Rightarrow> sys" where
  "handlePseudoStream_unified c w rq q s0 =
     (let s = (onRes (\<lambda>r. (res_set ''Connection'' ''keep-alive''
                        (res_set ''Cache-Control'' ''no-cache''
                          (res_set ''Content-Type'' ''text/event-stream'' (r\<lparr>statusCode := 200\<rparr>))))
                        \<lparr>headersSent := True\<rparr>) s0)
                \<lparr>connectionMaintainer := Some (keepAliveChunk rq)\<rparr>
      in case pseudoLoop_unified c w 0 None q s of
           Inr t \<Rightarrow> t
         | Inl (e, t) \<Rightarrow> handleFailure_unified c w e True (t\<lparr>connectionMaintainer := None\<rparr>))"

section \<open>Message queue and connection registry\<close>

text \<open>
  A \<open>MessageQueue\<close> object: the buffered messages, the waiting resolvers (each the promise
  of one pending \<open>dequeue\<close>, named by a number) and the \<open>closed\<close> flag. The operations
  return the promises they settle.
\<close>

record messageQueue =
  messages :: "msg list"
  waitingResolvers :: "nat list"
  closed :: bool

datatype settlement = Resolved nat msg | Rejected nat err

definition newQueue :: messageQueue where
  "newQueue = \<lparr>messages = [], waitingResolvers = [], closed = False\<rparr>"

definition mq_enqueue :: "msg \<Rightarrow> messageQueue \<Rightarrow> settlement list \<times> messageQueue" where
  "mq_enqueue m mq =
     (if closed mq then ([], mq)
      else (case waitingResolvers mq of
              resolver # rest \<Rightarrow> ([Resolved resolver m], mq\<lparr>waitingResolvers := rest\<rparr>)
            | [] \<Rightarrow> ([], mq\<lparr>messages := messages mq @ [m]\<rparr>)))"

text \<open>\<open>dequeue\<close>, up to the point where the call waits; \<open>resolver\<close> names its promise.\<close>

definition mq_dequeue :: "nat \<Rightarrow> messageQueue \<Rightarrow> settlement list \<times> messageQueue" where
  "mq_dequeue resolver mq =
     (if closed mq then ([Rejected resolver QueueClosedError], mq)
      else (case messages mq of
              m # rest \<Rightarrow> ([Resolved resolver m], mq\<lparr>messages := rest\<rparr>)
            | [] \<Rightarrow> ([], mq\<lparr>waitingResolvers := waitingResolvers mq @ [resolver]\<rparr>)))"

text \<open>The timer of a pending \<open>dequeue\<close>: it rejects only a resolver that still waits.\<close>

definition mq_timeout :: "nat \<Rightarrow> messageQueue \<Rightarrow> settlement list \<times> messageQueue" where
  "mq_timeout resolver mq =
     (if resolver \<in> set (waitingResolvers mq)
      then ([Rejected resolver QueueTimeout], mq\<lparr>waitingResolvers := remove1 resolver (waitingResolvers mq)\<rparr>)
      else ([], mq))"

text \<open>\<open>close\<close> of the full server: every waiting resolver is rejected, both lists are emptied.\<close>

definition mq_close :: "messageQueue \<Rightarrow> settlement list \<times> messageQueue" where
  "mq_close mq =
     (map (\<lambda>resolver. Rejected resolver QueueClosedError) (waitingResolvers mq),
      mq\<lparr>closed := True, waitingResolvers := [], messages := []\<rparr>)"

text \<open>
  The \<open>ConnectionRegistry\<close>: the set of connections and the map from request ids to queue
  objects, both in insertion order. A request handler keeps a reference to its queue while
  the registry may drop it from the map, so the queue objects live in a store and the map
  holds their addresses.
\<close>

record registry =
  connections :: "nat list"
  messageQueues :: "(string \<times> nat) list"
  store :: "nat \<Rightarrow> messageQueue"
  nextAddress :: nat

text \<open>\<open>messageQueues.forEach(queue => queue.close())\<close>, over the addresses in the map.\<close>

fun closeAll :: "nat list \<Rightarrow> (nat \<Rightarrow> messageQueue) \<Rightarrow> settlement list \<times> (nat \<Rightarrow> messageQueue)" where
  "closeAll [] st = ([], st)"
| "closeAll (a # as) st =
     (let (out1, mq) = mq_close (st a); (out2, st') = closeAll as (st(a := mq))
      in (out1 @ out2, st'))"

text \<open>
  \<open>_removeConnection\<close> of the full server, the handler of the socket's \<open>close\<close> event: the
  connection is deleted, every queue in the map closed, and the map cleared.
\<close>

definition removeConnection :: "nat \<Rightarrow> registry \<Rightarrow> settlement list \<times> registry" where
  "removeConnection websocket r =
     (let (out, st) = closeAll (map snd (messageQueues r)) (store r)
      in (out, r\<lparr>connections := removeAll websocket (connections r), store := st, messageQueues := []\<rparr>))"

text \<open>
  The handler of the socket's \<open>close\<close> event that \<open>addConnection\<close> of \<open>unified-server.js\<close>
  installs: \<open>ws.on('close', () => { this.connections.delete(ws); })\<close>. (The registry of
  that file calls its map \<open>queues\<close>.)
\<close>

definition onClose_unified :: "nat \<Rightarrow> registry \<Rightarrow> settlement list \<times> registry" where
  "onClose_unified ws r = ([], r\<lparr>connections := removeAll ws (connections r)\<rparr>)"

text \<open>\<open>createMessageQueue\<close>: a new queue object, entered in the map under the request id.\<close>

definition createMessageQueue :: "string \<Rightarrow> registry \<Rightarrow> nat \<times> registry" where
  "createMessageQueue requestId r =
     (let a = nextAddress r in
      (a, r\<lparr>messageQueues := AList.update requestId a (messageQueues r),
             store := (store r)(a := newQueue), nextAddress := a + 1\<rparr>))"

text \<open>\<open>removeMessageQueue\<close>: closes and forgets the queue of a request, if the map has one.\<close>

definition removeMessageQueue :: "string \<Rightarrow> registry \<Rightarrow> settlement list \<times> registry" where
  "removeMessageQueue requestId r =
     (case map_of (messageQueues r) requestId of
        None \<Rightarrow> ([], r)
      | Some a \<Rightarrow>
          (let (out, mq) = mq_close (store r a)
           in (out, r\<lparr>store := (store r)(a := mq),
                       messageQueues := AList.delete requestId (messageQueues r)\<rparr>)))"

text \<open>A pending \<open>dequeue\<close> of the request handler on the queue object at an address.\<close>

definition dequeueAt :: "nat \<Rightarrow> nat \<Rightarrow> registry \<Rightarrow> settlement list \<times> registry" where
  "dequeueAt a resolver r =
     (let (out, mq) = mq_dequeue resolver (store r a) in (out, r\<lparr>store := (store r)(a := mq)\<rparr>))"

text \<open>
  Two requests in flight, each waiting in \<open>dequeue\<close> on its own queue, over one worker
  connection.
\<close>

definition twoInFlight :: registry where
  "twoInFlight =
     snd (dequeueAt 1 11 (snd (dequeueAt 0 10
       (snd (createMessageQueue ''r2'' (snd (createMessageQueue ''r1''
          \<lparr>connections = [7], messageQueues = [], store = (\<lambda>a. newQueue), nextAddress = 0\<rparr>)))))))"

section \<open>Reading results\<close>

text \<open>The state in which a loop or a handler ended, whether it returned or threw.\<close>

definition resultState :: "loop_result \<Rightarrow> sys" where
  "resultState r = (case r of LoopDone m f t q \<Rightarrow> t | LoopThrew e t q \<Rightarrow> t)"

definition stepState :: "step \<Rightarrow> sys" where
  "stepState x = (case x of Retry t q \<Rightarrow> t | Stop r \<Rightarrow> resultState r)"

definition finalState :: "(err \<times> sys) + sys \<Rightarrow> sys" where
  "finalState r = (case r of Inl (e, t) \<Rightarrow> t | Inr t \<Rightarrow> t)"

text \<open>A trace without the account switches: the sends and the sleeps of the retry loop.\<close>

definition nonSwitch :: "action list \<Rightarrow> action list" where
  "nonSwitch tr = filter (\<lambda>a. \<not> isSwitch a) tr"

text \<open>
  What a step of the retry loop leaves of the response: it never ends it, the keep-alive
  timer stays as it is, and when the client is not told and no timer runs the response is
  untouched.
\<close>

definition keepsResponse :: "bool \<Rightarrow> sys \<Rightarrow> sys \<Rightarrow> bool" where
  "keepsResponse toClient s s' =
     (writableEnded (res s') = writableEnded (res s)
      \<and> connectionMaintainer s' = connectionMaintainer s
      \<and> (\<not> toClient \<and> connectionMaintainer s = None \<longrightarrow> res s' = res s))"

section \<open>Example surroundings\<close>

text \<open>
  Concrete surroundings for evaluating the definitions: the accounts 1, 3 and 5, every
  launch ending the same way, no failing close, a worker connected, no keep-alive tick
  falling into a wait, one text known to be valid JSON, the JSON string \<open>"hello"\<close> (with
  its quotes), which \<open>res.json\<close> writes back as it is, and an HTTP library that converts a
  status to a number before it checks it.
\<close>

definition helloJson :: string where
  "helloJson = CHR 0x22 # ''hello'' @ [CHR 0x22]"


definition exampleWorld :: "launch_outcome \<Rightarrow> world" where
  "exampleWorld outcome = \<lparr>auth = \<lparr>initialIndices = [1, 3, 5], runtimeAuths = []\<rparr>,
     closeThrows = (\<lambda>k. False), launch = (\<lambda>k. outcome), connected = True,
     ticks = (\<lambda>n. 0), jsonRoundTrip = (\<lambda>t. if t = helloJson then Some t else None),
     oddStatus = (\<lambda>v. case toNumber v of None \<Rightarrow> None
                           | Some n \<Rightarrow> if 100 \<le> n \<and> n \<le> 999 then Some n else None)\<rparr>"

definition idleServer :: sys where
  "idleServer = \<lparr>failureCount = 0, isAuthSwitching = False, browser = True, currentAuthIndex = 1,
     res = freshResponse, connectionMaintainer = None, trace = [], clock = 0\<rparr>"

definition generateContent :: req where
  "generateContent = \<lparr>path = ''/v1beta/models/m:generateContent'', keepAliveChunk = ''data: {}''\<rparr>"

definition exampleConfig :: "int \<Rightarrow> int list \<Rightarrow> config" where
  "exampleConfig threshold codes = \<lparr>maxRetries = 3, retryDelay = 2000,
     failureThreshold = threshold, immediateSwitchStatusCodes = codes\<rparr>"

section \<open>Properties of the credential source\<close>

lemma indexOf_None_iff: "indexOf xs y = None \<longleftrightarrow> y \<notin> set xs"
  by (induction xs) (auto split: option.splits)

lemma indexOf_nth_distinct: "distinct xs \<Longrightarrow> i < length xs \<Longrightarrow> indexOf xs (xs ! i) = Some i"
proof (induction xs arbitrary: i)
  case Nil
  then show ?case by simp
next
  case (Cons x xs)
  show ?case
  proof (cases i)
    case 0
    then show ?thesis by simp
  next
    case (Suc j)
    with Cons.prems have "xs ! j \<in> set xs" and "x \<notin> set xs" and "j < length xs" and "distinct xs"
      by auto
    with Cons.IH [of j] Suc show ?thesis by auto
  qed
qed

lemma getAvailableIndices_sorted_distinct:
  "sorted (getAvailableIndices a) \<and> distinct (getAvailableIndices a)
   \<and> set (getAvailableIndices a) = set (initialIndices a) \<union> fst ` set (runtimeAuths a)"
  by (simp add: getAvailableIndices_def)

lemma getNextAuthIndex_absent:
  "available \<noteq> [] \<Longrightarrow> current \<notin> set available \<Longrightarrow>
     getNextAuthIndex available current = Some (hd available)"
  by (cases available) (auto simp: getNextAuthIndex_def indexOf_None_iff [THEN iffD2] split: option.splits)

lemma getNextAuthIndex_present:
  assumes "distinct available" and "i < length available"
  shows "getNextAuthIndex available (available ! i) = Some (available ! ((i + 1) mod length available))"
proof (cases "length available = 1")
  case True
  with assms show ?thesis by (simp add: getNextAuthIndex_def)
next
  case False
  from assms(2) have "length available \<noteq> 0" by auto
  with False indexOf_nth_distinct [OF assms] show ?thesis
    by (simp add: getNextAuthIndex_def)
qed

lemma getNextAuthIndex_unified_eq:
  "getNextAuthIndex_unified available current = getNextAuthIndex available current"
proof (cases "length available = 1")
  case True
  then obtain x where "available = [x]" by (cases available) auto
  then show ?thesis
    by (simp add: getNextAuthIndex_unified_def getNextAuthIndex_def)
next
  case False
  then show ?thesis
    by (cases available) (auto simp: getNextAuthIndex_unified_def getNextAuthIndex_def split: option.splits)
qed

text \<open>
  Claim C8. Credential selection is round-robin over the sorted list of available indices,
  in the full server and in \<open>unified-server.js\<close> alike: the list is sorted and free of
  duplicates; the result is null (\<open>None\<close>) exactly when the list is empty; a current index
  that is not listed selects the first entry; a listed current index selects the entry that
  follows it, wrapping at the end. With the indices 1, 3 and 5, the successor of 5 is 1 and
  the successor of the unlisted 2 is 1.
\<close>

theorem C8_nextAfter_round_robin:
  fixes a :: "'p authSource"
  defines "av \<equiv> getAvailableIndices a"
  shows "sorted av \<and> distinct av
    \<and> (getNextAuthIndex av current = None \<longleftrightarrow> av = [])
    \<and> (av \<noteq> [] \<and> current \<notin> set av \<longrightarrow> getNextAuthIndex av current = Some (hd av))
    \<and> (\<forall>i < length av. getNextAuthIndex av (av ! i) = Some (av ! ((i + 1) mod length av)))
    \<and> getNextAuthIndex_unified av current = getNextAuthIndex av current
    \<and> getNextAuthIndex (getAvailableIndices \<lparr>initialIndices = [5, 1, 3], runtimeAuths = []\<rparr>) 5 = Some 1
    \<and> getNextAuthIndex (getAvailableIndices \<lparr>initialIndices = [1, 3], runtimeAuths = [(5, ())]\<rparr>) 2 = Some 1"
proof -
  have sd: "sorted av" "distinct av"
    using getAvailableIndices_sorted_distinct [of a] by (simp_all add: av_def)
  have none: "getNextAuthIndex av current = None \<longleftrightarrow> av = []"
    by (auto simp: getNextAuthIndex_def split: option.splits)
  have absent: "av \<noteq> [] \<and> current \<notin> set av \<longrightarrow> getNextAuthIndex av current = Some (hd av)"
    using getNextAuthIndex_absent by blast
  have present: "\<forall>i < length av. getNextAuthIndex av (av ! i) = Some (av ! ((i + 1) mod length av))"
    using getNextAuthIndex_present [OF sd(2)] by blast
  have ex1: "getNextAuthIndex (getAvailableIndices \<lparr>initialIndices = [5, 1, 3], runtimeAuths = []\<rparr>) 5 = Some 1"
    by (simp add: getAvailableIndices_def getNextAuthIndex_def)
  have ex2: "getNextAuthIndex (getAvailableIndices \<lparr>initialIndices = [1, 3], runtimeAuths = [(5, ())]\<rparr>) 2 = Some 1"
    by (simp add: getAvailableIndices_def getNextAuthIndex_def)
  from sd none absent present ex1 ex2 getNextAuthIndex_unified_eq show ?thesis
    by blast
qed

theorem C8_nextAfter_round_robin_witness:
  "getNextAuthIndex (getAvailableIndices \<lparr>initialIndices = [3, 1], runtimeAuths = [(5, ()), (3, ())]\<rparr>) 7 = Some 1
   \<and> getNextAuthIndex (getAvailableIndices \<lparr>initialIndices = [3, 1], runtimeAuths = [(5, ()), (3, ())]\<rparr>) 3 = Some 5
   \<and> getNextAuthIndex_unified (getAvailableIndices \<lparr>initialIndices = [3, 1], runtimeAuths = [(5, ()), (3, ())]\<rparr>) 5 = Some 1"
proof -
  let ?a = "\<lparr>initialIndices = [3, 1], runtimeAuths = [(5, ()), (3, ())]\<rparr> :: unit authSource"
  let ?av = "getAvailableIndices ?a"
  have av: "?av = [1, 3, 5]"
    by (simp add: getAvailableIndices_def)
  have absent: "?av \<noteq> [] \<and> 7 \<notin> set ?av"
    by (simp add: av)
  have "?av \<noteq> [] \<and> 7 \<notin> set ?av \<longrightarrow> getNextAuthIndex ?av 7 = Some (hd ?av)"
    using C8_nextAfter_round_robin [of ?a 7] by blast
  with absent have "getNextAuthIndex ?av 7 = Some (hd ?av)"
    by blast
  then have a: "getNextAuthIndex ?av 7 = Some 1"
    by (simp add: av)
  have present: "\<forall>i < length ?av. getNextAuthIndex ?av (?av ! i) = Some (?av ! ((i + 1) mod length ?av))"
    using C8_nextAfter_round_robin [of ?a 5] by blast
  have "(1::nat) < length ?av"
    by (simp add: av)
  with present have "getNextAuthIndex ?av (?av ! 1) = Some (?av ! ((1 + 1) mod length ?av))"
    by blast
  then have b: "getNextAuthIndex ?av 3 = Some 5"
    by (simp add: av)
  have "(2::nat) < length ?av"
    by (simp add: av)
  with present have "getNextAuthIndex ?av (?av ! 2) = Some (?av ! ((2 + 1) mod length ?av))"
    by blast
  then have "getNextAuthIndex ?av 5 = Some 1"
    by (simp add: av)
  moreover have "getNextAuthIndex_unified ?av 5 = getNextAuthIndex ?av 5"
    using C8_nextAfter_round_robin [of ?a 5] by blast
  ultimately have c: "getNextAuthIndex_unified ?av 5 = Some 1"
    by simp
  from a b c show ?thesis by blast
qed

section \<open>Properties of the status reconciliation\<close>

lemma search_Nil_strict: "strictHere [] = None"
  by (simp add: strictHere_def strictAfter_def orElse_def)

lemma search_Nil_loose: "looseHere [] = None"
  by (simp add: looseHere_def looseAfter_def codeField_def orElse_def)

lemma parseAndCorrectErrorDetails_status:
  "parseAndCorrectErrorDetails e =
     (case embeddedStatus strictHere e of
        None \<Rightarrow> e
      | Some p \<Rightarrow> if 400 \<le> p \<and> p \<le> 599 then e\<lparr>status := JNum p\<rparr> else e)"
proof (cases "message e")
  case None
  then show ?thesis
    by (simp add: parseAndCorrectErrorDetails_def embeddedStatus_def)
next
  case (Some str)
  show ?thesis
  proof (cases "str = []")
    case True
    with Some show ?thesis
      by (simp add: parseAndCorrectErrorDetails_def embeddedStatus_def search_Nil_strict)
  next
    case False
    have same: "status e = JNum p \<Longrightarrow> e\<lparr>status := JNum p\<rparr> = e" for p
      by simp
    from Some False show ?thesis
      by (auto simp: parseAndCorrectErrorDetails_def embeddedStatus_def same split: option.splits)
  qed
qed

lemma correctedDetails_status:
  "correctedDetails e =
     (case embeddedStatus looseHere e of
        None \<Rightarrow> e
      | Some p \<Rightarrow> if 400 \<le> p \<and> p \<le> 599 then e\<lparr>status := JNum p\<rparr> else e)"
proof (cases "message e")
  case None
  then show ?thesis
    by (simp add: correctedDetails_def embeddedStatus_def)
next
  case (Some str)
  show ?thesis
  proof (cases "str = []")
    case True
    with Some show ?thesis
      by (simp add: correctedDetails_def embeddedStatus_def search_Nil_loose)
  next
    case False
    have same: "status e = JNum p \<Longrightarrow> e\<lparr>status := JNum p\<rparr> = e" for p
      by simp
    from Some False show ?thesis
      by (auto simp: correctedDetails_def embeddedStatus_def same split: option.splits)
  qed
qed



lemmas pattern_eval =
  strictHere_def strictAfter_def looseHere_def looseAfter_def codeField_def orElse_def
  spaces0_def spaces1_def is_space_def is_digit_def digit_val_def




section \<open>Properties of the failover\<close>

lemma await_fields [simp]:
  "failureCount (await w s) = failureCount s"
  "isAuthSwitching (await w s) = isAuthSwitching s"
  "browser (await w s) = browser s"
  "currentAuthIndex (await w s) = currentAuthIndex s"
  "trace (await w s) = trace s"
  "connectionMaintainer (await w s) = connectionMaintainer s"
  "clock (await w s) = Suc (clock s)"
  by (simp_all add: await_def onRes_def Let_def split: option.splits)

lemma switchAccount_result:
  "switchAccount w n s = (r, s') \<Longrightarrow>
     failureCount s' = failureCount s \<and> isAuthSwitching s' = isAuthSwitching s
     \<and> trace s' = trace s @ [SwitchAccount n]
     \<and> (case r of Inl e \<Rightarrow> currentAuthIndex s' = currentAuthIndex s
                 | Inr u \<Rightarrow> currentAuthIndex s' = n \<and> browser s')"
  by (auto simp: switchAccount_def closeBrowser_def launchBrowser_def record_action_def Let_def
      split: if_splits sum.splits launch_outcome.splits)

lemma switchAccount_fails:
  "launch w (switches s) \<noteq> Ready \<or> (browser s \<and> closeThrows w (switches s)) \<Longrightarrow> \<exists>e s'. switchAccount w n s = (Inl e, s')"
  by (auto simp: switchAccount_def closeBrowser_def launchBrowser_def record_action_def Let_def
      split: if_splits sum.splits launch_outcome.splits)

lemma switchAccount_succeeds:
  "launch w (switches s) = Ready \<Longrightarrow> \<not> (browser s \<and> closeThrows w (switches s)) \<Longrightarrow> \<exists>s'. switchAccount w n s = (Inr (), s')"
  by (auto simp: switchAccount_def closeBrowser_def launchBrowser_def record_action_def Let_def
      split: if_splits sum.splits launch_outcome.splits)

lemma switches_simps [simp]:
  "switches (s\<lparr>isAuthSwitching := b\<rparr>) = switches s"
  "switches (s\<lparr>failureCount := k\<rparr>) = switches s"
  "switches (onRes f s) = switches s"
  by (simp_all add: switches_def onRes_def)

lemma onRes_fields [simp]:
  "failureCount (onRes f s) = failureCount s"
  "isAuthSwitching (onRes f s) = isAuthSwitching s"
  "browser (onRes f s) = browser s"
  "currentAuthIndex (onRes f s) = currentAuthIndex s"
  "trace (onRes f s) = trace s"
  "connectionMaintainer (onRes f s) = connectionMaintainer s"
  "clock (onRes f s) = clock s"
  "res (onRes f s) = f (res s)"
  by (simp_all add: onRes_def)

lemma getNextAuthIndex_None_iff: "getNextAuthIndex av cur = None \<longleftrightarrow> av = []"
  by (auto simp: getNextAuthIndex_def split: option.splits)

lemma switchToNextAuth_busy: "isAuthSwitching s \<Longrightarrow> switchToNextAuth w s = (Inr (), s)"
  by (simp add: switchToNextAuth_def switchDuring_def switchBegin_def)

lemma switchToNextAuth_result:
  assumes "switchToNextAuth w s = (r, s')" and "\<not> isAuthSwitching s"
  shows "\<not> isAuthSwitching s'
     \<and> (case r of
           Inl e \<Rightarrow> currentAuthIndex s' = currentAuthIndex s \<and> failureCount s' = failureCount s
         | Inr u \<Rightarrow> getNextAuthIndex (getAvailableIndices (auth w)) (currentAuthIndex s) = Some (currentAuthIndex s')
                    \<and> failureCount s' = 0 \<and> trace s' = trace s @ [SwitchAccount (currentAuthIndex s')])"
proof (cases "getNextAuthIndex (getAvailableIndices (auth w)) (currentAuthIndex s)")
  case None
  with assms show ?thesis
    by (auto simp: switchToNextAuth_def switchDuring_def switchBegin_def switchResume_def Let_def)
next
  case (Some n)
  obtain r2 s2 where sw: "switchAccount w n (s\<lparr>isAuthSwitching := True\<rparr>) = (r2, s2)"
    by (cases "switchAccount w n (s\<lparr>isAuthSwitching := True\<rparr>)")
  from switchAccount_result [OF sw] Some assms sw show ?thesis
    by (auto simp: switchToNextAuth_def switchDuring_def switchBegin_def switchResume_def Let_def split: sum.splits)
qed

lemma switchToNextAuth_fails:
  assumes "\<not> isAuthSwitching s" and "launch w (switches s) \<noteq> Ready"
  shows "\<exists>e s'. switchToNextAuth w s = (Inl e, s')"
proof (cases "getNextAuthIndex (getAvailableIndices (auth w)) (currentAuthIndex s)")
  case None
  with assms show ?thesis
    by (simp add: switchToNextAuth_def switchDuring_def switchBegin_def switchResume_def Let_def)
next
  case (Some n)
  from assms(2) have "launch w (switches (s\<lparr>isAuthSwitching := True\<rparr>)) \<noteq> Ready"
    by simp
  then obtain e s2 where "switchAccount w n (s\<lparr>isAuthSwitching := True\<rparr>) = (Inl e, s2)"
    using switchAccount_fails by blast
  with Some assms show ?thesis
    by (simp add: switchToNextAuth_def switchDuring_def switchBegin_def switchResume_def Let_def)
qed

lemma switchToNextAuth_succeeds:
  assumes "\<not> isAuthSwitching s" and "launch w (switches s) = Ready"
    and "\<not> closeThrows w (switches s)" and "getAvailableIndices (auth w) \<noteq> []"
  shows "\<exists>s'. switchToNextAuth w s = (Inr (), s')"
proof -
  from assms(4) obtain n where n: "getNextAuthIndex (getAvailableIndices (auth w)) (currentAuthIndex s) = Some n"
    by (cases "getNextAuthIndex (getAvailableIndices (auth w)) (currentAuthIndex s)")
       (auto simp: getNextAuthIndex_None_iff)
  from assms have "\<exists>s2. switchAccount w n (s\<lparr>isAuthSwitching := True\<rparr>) = (Inr (), s2)"
    by (intro switchAccount_succeeds) simp_all
  with n assms show ?thesis
    by (auto simp: switchToNextAuth_def switchDuring_def switchBegin_def switchResume_def Let_def)
qed


lemma switches_record_action [simp]:
  "switches (record_action a s) = switches s + (if isSwitch a then 1 else 0)"
  by (simp add: switches_def record_action_def)

lemma trySwitch_busy:
  "isAuthSwitching s \<Longrightarrow>
     failureCount (trySwitch w toClient s) = failureCount s
     \<and> currentAuthIndex (trySwitch w toClient s) = currentAuthIndex s
     \<and> trace (trySwitch w toClient s) = trace s"
  by (simp add: trySwitch_def switchToNextAuth_busy)

lemma trySwitch_idle:
  assumes "\<not> isAuthSwitching s" and "launch w (switches s) = Ready"
    and "\<not> closeThrows w (switches s)" and "getAvailableIndices (auth w) \<noteq> []"
  shows "failureCount (trySwitch w toClient s) = 0
     \<and> getNextAuthIndex (getAvailableIndices (auth w)) (currentAuthIndex s)
         = Some (currentAuthIndex (trySwitch w toClient s))
     \<and> trace (trySwitch w toClient s) = trace s @ [SwitchAccount (currentAuthIndex (trySwitch w toClient s))]
     \<and> \<not> isAuthSwitching (trySwitch w toClient s)"
proof -
  from switchToNextAuth_succeeds [OF assms] obtain s' where ok: "switchToNextAuth w s = (Inr (), s')"
    by blast
  from switchToNextAuth_result [OF ok assms(1)] ok show ?thesis
    by (simp add: trySwitch_def)
qed

lemma switches_append: "trace s' = trace s @ [SwitchAccount n] \<Longrightarrow> switches s' = switches s + 1"
  by (simp add: switches_def isSwitch_def)




lemma handle_immediate:
  assumes "isImmediateSwitch c (correctedDetails e)"
  shows "handleRequestFailureAndSwitch c w e toClient s =
     trySwitch w toClient
       (if toClient then onRes (sendErrorChunkToClient (SwitchingOnStatus (status (correctedDetails e)))) s else s)"
  using assms by (simp add: handleRequestFailureAndSwitch_def Let_def)


text \<open>
  Claim C4. Rotation is all-or-nothing for the active credential. Whenever the launch of
  the browser for the next credential fails (at any of the places where \<open>launchBrowser\<close>
  throws), \<open>switchAccount\<close> throws and \<open>currentAuthIndex\<close> is what it was; and
  \<open>_switchToNextAuth\<close>, started while no switch is under way, throws to its caller with
  \<open>currentAuthIndex\<close> and the failure counter unchanged and the switching flag cleared.
\<close>

theorem C4_rotation_all_or_nothing:
  assumes "launch w (switches s) \<noteq> Ready"
  shows "(\<exists>e s'. switchAccount w n s = (Inl e, s') \<and> currentAuthIndex s' = currentAuthIndex s)
       \<and> (\<not> isAuthSwitching s \<longrightarrow>
            (\<exists>e s'. switchToNextAuth w s = (Inl e, s') \<and> currentAuthIndex s' = currentAuthIndex s
                \<and> failureCount s' = failureCount s \<and> \<not> isAuthSwitching s'))"
proof -
  from assms obtain e s' where a: "switchAccount w n s = (Inl e, s')"
    using switchAccount_fails by blast
  from switchAccount_result [OF a] have "currentAuthIndex s' = currentAuthIndex s"
    by simp
  with a have first: "\<exists>e s'. switchAccount w n s = (Inl e, s') \<and> currentAuthIndex s' = currentAuthIndex s"
    by blast
  have second: "\<exists>e s'. switchToNextAuth w s = (Inl e, s') \<and> currentAuthIndex s' = currentAuthIndex s
                \<and> failureCount s' = failureCount s \<and> \<not> isAuthSwitching s'" if idle: "\<not> isAuthSwitching s"
  proof -
    from switchToNextAuth_fails [OF idle assms] obtain e2 s2 where b: "switchToNextAuth w s = (Inl e2, s2)"
      by blast
    from switchToNextAuth_result [OF b idle] b show ?thesis
      by simp
  qed
  from first second show ?thesis by blast
qed

theorem C4_rotation_all_or_nothing_witness:
  "(\<exists>e s'. switchAccount (exampleWorld InitFailed) 3 idleServer = (Inl e, s') \<and> currentAuthIndex s' = 1)
   \<and> (\<exists>e s'. switchToNextAuth (exampleWorld InitFailed) idleServer = (Inl e, s')
         \<and> currentAuthIndex s' = 1)"
proof -
  have fails: "launch (exampleWorld InitFailed) (switches idleServer) \<noteq> Ready"
    by (simp add: exampleWorld_def)
  have idle: "\<not> isAuthSwitching idleServer" and cur: "currentAuthIndex idleServer = 1"
    by (simp_all add: idleServer_def)
  from C4_rotation_all_or_nothing [OF fails, of 3] idle cur show ?thesis
    by auto
qed


text \<open>What a switch that is not interrupted does to the trace, the counter and the account.\<close>

lemma switchResume_result:
  assumes "switchResume w n s = (r, s')"
  shows "\<not> isAuthSwitching s' \<and> trace s' = trace s @ [SwitchAccount n]
     \<and> (case r of
           Inl e \<Rightarrow> currentAuthIndex s' = currentAuthIndex s \<and> failureCount s' = failureCount s
         | Inr u \<Rightarrow> currentAuthIndex s' = n \<and> failureCount s' = 0)"
proof -
  obtain r2 s2 where sw: "switchAccount w n s = (r2, s2)"
    by (cases "switchAccount w n s")
  from switchAccount_result [OF sw] assms sw show ?thesis
    by (auto simp: switchResume_def split: sum.splits)
qed


lemma switchToNextAuth_trace:
  assumes "\<not> isAuthSwitching s"
  shows "trace (snd (switchToNextAuth w s)) =
     (case getNextAuthIndex (getAvailableIndices (auth w)) (currentAuthIndex s) of
        None \<Rightarrow> trace s
      | Some n \<Rightarrow> trace s @ [SwitchAccount n])"
proof (cases "getNextAuthIndex (getAvailableIndices (auth w)) (currentAuthIndex s)")
  case None
  with assms show ?thesis
    by (simp add: switchToNextAuth_def switchDuring_def switchBegin_def Let_def)
next
  case (Some n)
  obtain r s' where rs: "switchResume w n (s\<lparr>isAuthSwitching := True\<rparr>) = (r, s')"
    by (cases "switchResume w n (s\<lparr>isAuthSwitching := True\<rparr>)")
  from switchResume_result [OF rs] Some assms rs show ?thesis
    by (simp add: switchToNextAuth_def switchDuring_def switchBegin_def Let_def)
qed


lemma trySwitch_fields:
  "failureCount (trySwitch w toClient s) = failureCount (snd (switchToNextAuth w s))"
  "currentAuthIndex (trySwitch w toClient s) = currentAuthIndex (snd (switchToNextAuth w s))"
  "isAuthSwitching (trySwitch w toClient s) = isAuthSwitching (snd (switchToNextAuth w s))"
  "browser (trySwitch w toClient s) = browser (snd (switchToNextAuth w s))"
  "trace (trySwitch w toClient s) = trace (snd (switchToNextAuth w s))"
  by (cases "switchToNextAuth w s"; cases toClient; simp add: trySwitch_def split: sum.splits)+







lemmas failover_eval =
  handleRequestFailureAndSwitch_def correctedDetails_def isImmediateSwitch_def trySwitch_def
  switchToNextAuth_def switchDuring_def switchBegin_def switchResume_def switchAccount_def
  closeBrowser_def launchBrowser_def await_def record_action_def switches_def isSwitch_def
  getNextAuthIndex_def getAvailableIndices_def exampleConfig_def exampleWorld_def idleServer_def
  errorEvent_def errorEventWith_def emptyMsg_def pattern_eval Let_def


text \<open>
  The claim as the specification words it fails where the rebuild fails. With the
  credentials 1, 3 and 5, the credential 1 active, a threshold of 3 and a browser that
  does not get ready (\<open>InitFailed\<close>), three failures with status 500 in a row end with one
  call of \<open>switchAccount\<close> and the counter at 3, not 0, the credential 1 still active; and
  the fourth failure, the counter being over the threshold, calls \<open>switchAccount\<close> again.
\<close>

theorem C2_threshold_rotation_counterexample:
  "failureThreshold (exampleConfig 3 []) = 3
   \<and> failureCount idleServer = 0 \<and> \<not> isAuthSwitching idleServer
   \<and> failureCount (handleRequestFailureAndSwitch (exampleConfig 3 []) (exampleWorld InitFailed)
        (errorEvent (Some 500) ''boom'') False
        (handleRequestFailureAndSwitch (exampleConfig 3 []) (exampleWorld InitFailed)
          (errorEvent (Some 500) ''boom'') False
          (handleRequestFailureAndSwitch (exampleConfig 3 []) (exampleWorld InitFailed)
            (errorEvent (Some 500) ''boom'') False idleServer))) = 3
   \<and> currentAuthIndex (handleRequestFailureAndSwitch (exampleConfig 3 []) (exampleWorld InitFailed)
        (errorEvent (Some 500) ''boom'') False
        (handleRequestFailureAndSwitch (exampleConfig 3 []) (exampleWorld InitFailed)
          (errorEvent (Some 500) ''boom'') False
          (handleRequestFailureAndSwitch (exampleConfig 3 []) (exampleWorld InitFailed)
            (errorEvent (Some 500) ''boom'') False idleServer))) = 1
   \<and> trace (handleRequestFailureAndSwitch (exampleConfig 3 []) (exampleWorld InitFailed)
        (errorEvent (Some 500) ''boom'') False
        (handleRequestFailureAndSwitch (exampleConfig 3 []) (exampleWorld InitFailed)
          (errorEvent (Some 500) ''boom'') False
          (handleRequestFailureAndSwitch (exampleConfig 3 []) (exampleWorld InitFailed)
            (errorEvent (Some 500) ''boom'') False idleServer))) = [SwitchAccount 3]
   \<and> failureCount (fold (\<lambda>e. handleRequestFailureAndSwitch (exampleConfig 3 []) (exampleWorld InitFailed) e False)
        [errorEvent (Some 500) ''boom'', errorEvent (Some 500) ''boom'',
         errorEvent (Some 500) ''boom'', errorEvent (Some 500) ''boom''] idleServer) = 4
   \<and> trace (fold (\<lambda>e. handleRequestFailureAndSwitch (exampleConfig 3 []) (exampleWorld InitFailed) e False)
        [errorEvent (Some 500) ''boom'', errorEvent (Some 500) ''boom'',
         errorEvent (Some 500) ''boom'', errorEvent (Some 500) ''boom''] idleServer) = [SwitchAccount 3, SwitchAccount 3]"
  by (simp add: failover_eval)

section \<open>Properties of the retry loop\<close>

lemma record_action_fields [simp]:
  "failureCount (record_action a s) = failureCount s"
  "isAuthSwitching (record_action a s) = isAuthSwitching s"
  "browser (record_action a s) = browser s"
  "currentAuthIndex (record_action a s) = currentAuthIndex s"
  "trace (record_action a s) = trace s @ [a]"
  "connectionMaintainer (record_action a s) = connectionMaintainer s"
  "clock (record_action a s) = clock s"
  "res (record_action a s) = res s"
  by (simp_all add: record_action_def)

lemma trySwitch_trace:
  "\<exists>sw. trace (trySwitch w toClient s) = trace s @ sw \<and> list_all isSwitch sw \<and> length sw \<le> 1"
proof (cases "isAuthSwitching s")
  case True
  then show ?thesis
    by (simp add: trySwitch_fields switchToNextAuth_busy)
next
  case False
  from switchToNextAuth_trace [OF False, of w] show ?thesis
    by (cases "getNextAuthIndex (getAvailableIndices (auth w)) (currentAuthIndex s)")
       (simp_all add: trySwitch_fields isSwitch_def)
qed

lemma handle_trace:
  "\<exists>sw. trace (handleRequestFailureAndSwitch c w e toClient s) = trace s @ sw
         \<and> list_all isSwitch sw \<and> length sw \<le> 1"
proof -
  have a: "\<exists>sw. trace (trySwitch w toClient (if toClient then onRes f t else t)) = trace t @ sw
         \<and> list_all isSwitch sw \<and> length sw \<le> 1" for f t
    using trySwitch_trace [of w toClient "onRes f t"] trySwitch_trace [of w toClient t]
    by (cases toClient) simp_all
  show ?thesis
    unfolding handleRequestFailureAndSwitch_def Let_def
    using a [of _ s] a [of _ "s\<lparr>failureCount := failureCount s + 1\<rparr>"]
    by (auto split: if_splits)
qed

text \<open>What the retry loop leaves of the response.\<close>

lemma keepsResponse_refl [simp]: "keepsResponse b s s"
  by (simp add: keepsResponse_def)

lemma keepsResponse_trans: "keepsResponse b s s1 \<Longrightarrow> keepsResponse b s1 s2 \<Longrightarrow> keepsResponse b s s2"
  by (auto simp: keepsResponse_def)

lemma await_keeps: "keepsResponse b s (await w s)"
  by (auto simp: keepsResponse_def await_def onRes_def Let_def split: option.splits)

lemma record_action_keeps: "keepsResponse b s (record_action a s)"
  by (simp add: keepsResponse_def)

lemma switchAccount_keeps: "keepsResponse b s (snd (switchAccount w n s))"
proof -
  have a: "keepsResponse b s (await w (record_action (SwitchAccount n) s))"
    using keepsResponse_trans [OF record_action_keeps await_keeps] .
  have "keepsResponse b x (snd (case closeBrowser w k x of
        Inl e \<Rightarrow> (Inl e, x) | Inr s2 \<Rightarrow> launchBrowser outcome n s2))" for x k outcome
    by (auto simp: keepsResponse_def closeBrowser_def launchBrowser_def
        split: sum.splits launch_outcome.splits)
  from keepsResponse_trans [OF a this] show ?thesis
    by (simp add: switchAccount_def Let_def)
qed

lemma switchToNextAuth_keeps: "keepsResponse b s (snd (switchToNextAuth w s))"
proof (cases "isAuthSwitching s")
  case True
  then show ?thesis by (simp add: switchToNextAuth_busy)
next
  case False
  show ?thesis
  proof (cases "getNextAuthIndex (getAvailableIndices (auth w)) (currentAuthIndex s)")
    case None
    with False show ?thesis
      by (simp add: switchToNextAuth_def switchDuring_def switchBegin_def Let_def keepsResponse_def)
  next
    case (Some n)
    have a: "keepsResponse b s (s\<lparr>isAuthSwitching := True\<rparr>)"
      by (simp add: keepsResponse_def)
    have c: "keepsResponse b x (snd (switchResume w n x))" for x
      using switchAccount_keeps [of b x w n]
      by (cases "switchAccount w n x")
         (auto simp: switchResume_def keepsResponse_def split: sum.splits)
    from keepsResponse_trans [OF a c] Some False show ?thesis
      by (simp add: switchToNextAuth_def switchDuring_def switchBegin_def Let_def)
  qed
qed

lemma chunk_keeps: "keepsResponse b s (if b then onRes (sendErrorChunkToClient n) s else s)"
  by (simp add: keepsResponse_def sendErrorChunkToClient_def res_write_def)

lemma trySwitch_keeps: "keepsResponse b s (trySwitch w b s)"
proof -
  obtain r s' where sw: "switchToNextAuth w s = (r, s')"
    by (cases "switchToNextAuth w s")
  from switchToNextAuth_keeps [of b s w] sw have a: "keepsResponse b s s'"
    by simp
  have "trySwitch w b s =
      (if b then onRes (sendErrorChunkToClient
                 (case r of Inr u \<Rightarrow> SwitchedTo (currentAuthIndex s') | Inl e \<Rightarrow> SwitchFailed e)) s'
       else s')"
    using sw by (simp add: trySwitch_def split: sum.splits)
  with keepsResponse_trans [OF a chunk_keeps] show ?thesis
    by simp
qed

lemma handle_keeps: "keepsResponse b s (handleRequestFailureAndSwitch c w e b s)"
proof -
  have a: "keepsResponse b x (trySwitch w b (if b then onRes (sendErrorChunkToClient n) x else x))" for x n
    using keepsResponse_trans [OF chunk_keeps trySwitch_keeps] .
  have b: "keepsResponse b s (s\<lparr>failureCount := k\<rparr>)" for k
    by (simp add: keepsResponse_def)
  show ?thesis
    unfolding handleRequestFailureAndSwitch_def Let_def
    using a [of s] keepsResponse_trans [OF b a] b
    by simp
qed


lemma attemptOnce_retryable:
  assumes "connected w" and "retryable m"
  shows "\<exists>s4 sw. trace s4 = trace s @ Forward # sw \<and> list_all isSwitch sw \<and> length sw \<le> 1
     \<and> failureCount s4 = failureCount (handleRequestFailureAndSwitch c w (parseAndCorrectErrorDetails m) toClient (await w (record_action Forward s)))
     \<and> keepsResponse toClient s s4
     \<and> (toClient \<and> \<not> writableEnded (res s) \<longrightarrow> headersSent (res s4))
     \<and> attemptOnce c w toClient attempt (Got m # q') s
         = (if attempt < maxRetries c
            then Retry (await w (record_action (Sleep (retryDelay c)) s4)) q'
            else Stop (LoopDone (Some m) True s4 q'))"
proof -
  let ?s2 = "await w (record_action Forward s)"
  let ?s3 = "handleRequestFailureAndSwitch c w (parseAndCorrectErrorDetails m) toClient ?s2"
  let ?s4 = "if toClient
             then onRes (sendErrorChunkToClient
                    (RetryNotice (status (parseAndCorrectErrorDetails m)) (attempt < maxRetries c))) ?s3
             else ?s3"
  from handle_trace [of c w "parseAndCorrectErrorDetails m" toClient ?s2]
  obtain sw where sw: "trace ?s3 = trace ?s2 @ sw" "list_all isSwitch sw" "length sw \<le> 1"
    by blast
  have tr: "trace ?s4 = trace s @ Forward # sw"
    using sw(1) by (cases toClient) simp_all
  have fc: "failureCount ?s4 = failureCount ?s3"
    by (cases toClient) simp_all
  have eq: "attemptOnce c w toClient attempt (Got m # q') s
         = (if attempt < maxRetries c
            then Retry (await w (record_action (Sleep (retryDelay c)) ?s4)) q'
            else Stop (LoopDone (Some m) True ?s4 q'))"
    using assms by (simp add: attemptOnce_def forwardRequest_def Let_def)
  have k2: "keepsResponse toClient s ?s2"
    using keepsResponse_trans [OF record_action_keeps await_keeps] .
  have k3: "keepsResponse toClient s ?s3"
    using keepsResponse_trans [OF k2 handle_keeps] .
  have k4: "keepsResponse toClient s ?s4"
    using keepsResponse_trans [OF k3 chunk_keeps] .
  have hs: "headersSent (res ?s4)" if "toClient" and "\<not> writableEnded (res s)"
    using that k3 by (simp add: keepsResponse_def sendErrorChunkToClient_def res_write_def)
  from tr sw(2) sw(3) fc eq k4 hs show ?thesis
    by blast
qed

lemma attemptOnce_other:
  assumes "connected w" and "\<not> retryable m"
  shows "attemptOnce c w toClient attempt (Got m # q') s
           = Stop (LoopDone (Some m) False (await w (record_action Forward s)) q')"
  using assms by (simp add: attemptOnce_def forwardRequest_def Let_def)


lemma count_switches_Forward: "list_all isSwitch sw \<Longrightarrow> count_list sw Forward = 0"
  by (induction sw) (auto simp: isSwitch_def)

lemma attemptOnce_forwards:
  "count_list (trace (stepState (attemptOnce c w toClient attempt q s))) Forward
     \<le> count_list (trace s) Forward + 1"
proof (cases "connected w")
  case False
  then show ?thesis
    by (simp add: attemptOnce_def forwardRequest_def stepState_def resultState_def)
next
  case True
  show ?thesis
  proof (cases "dequeue q")
    case (Pair r q')
    show ?thesis
    proof (cases r)
      case (Inl e)
      with Pair True show ?thesis
        by (simp add: attemptOnce_def forwardRequest_def stepState_def resultState_def)
    next
      case (Inr m)
      with Pair have q: "q = Got m # q'"
        by (cases q rule: dequeue.cases) auto
      show ?thesis
      proof (cases "retryable m")
        case False
        with True q show ?thesis
          by (simp add: attemptOnce_other stepState_def resultState_def)
      next
        case r: True
        from attemptOnce_retryable [OF True r, of s c toClient attempt q']
        obtain s4 sw where h: "trace s4 = trace s @ Forward # sw" "list_all isSwitch sw"
          "attemptOnce c w toClient attempt (Got m # q') s
             = (if attempt < maxRetries c
                then Retry (await w (record_action (Sleep (retryDelay c)) s4)) q'
                else Stop (LoopDone (Some m) True s4 q'))"
          by blast
        with q count_switches_Forward [OF h(2)] show ?thesis
          by (simp add: stepState_def resultState_def)
      qed
    qed
  qed
qed

lemma retryLoop_forwards:
  "count_list (trace (resultState (retryLoop c w toClient attempt q s))) Forward
     \<le> count_list (trace s) Forward + nat (maxRetries c + 1 - attempt)"
proof (induction c w toClient attempt q s rule: retryLoop.induct)
  case (1 c w toClient attempt q s)
  show ?case
  proof (cases "attempt \<le> maxRetries c")
    case False
    then show ?thesis
      by (subst retryLoop.simps) (simp add: resultState_def)
  next
    case True
    show ?thesis
    proof (cases "attemptOnce c w toClient attempt q s")
      case (Retry s' q')
      from attemptOnce_forwards [of c w toClient attempt q s] Retry
      have "count_list (trace s') Forward \<le> count_list (trace s) Forward + 1"
        by (simp add: stepState_def)
      moreover from "1.IH" [OF True Retry]
      have "count_list (trace (resultState (retryLoop c w toClient (attempt + 1) q' s'))) Forward
          \<le> count_list (trace s') Forward + nat (maxRetries c + 1 - (attempt + 1))" .
      moreover have "retryLoop c w toClient attempt q s = retryLoop c w toClient (attempt + 1) q' s'"
        using True Retry by (subst retryLoop.simps) simp
      ultimately show ?thesis
        using True by (simp add: nat_diff_distrib) 
    next
      case (Stop r)
      from attemptOnce_forwards [of c w toClient attempt q s] Stop
      have "count_list (trace (resultState r)) Forward \<le> count_list (trace s) Forward + 1"
        by (simp add: stepState_def)
      moreover have "retryLoop c w toClient attempt q s = r"
        using True Stop by (subst retryLoop.simps) simp
      ultimately show ?thesis
        using True by simp
    qed
  qed
qed

lemma nonSwitch_simps [simp]:
  "nonSwitch [] = []"
  "nonSwitch (xs @ ys) = nonSwitch xs @ nonSwitch ys"
  "nonSwitch (Forward # xs) = Forward # nonSwitch xs"
  "nonSwitch (Sleep d # xs) = Sleep d # nonSwitch xs"
  by (simp_all add: nonSwitch_def isSwitch_def)

lemma nonSwitch_switches: "list_all isSwitch sw \<Longrightarrow> nonSwitch sw = []"
  by (induction sw) (auto simp: nonSwitch_def)

lemma retryLoop_retry:
  assumes "connected w" and "retryable m" and "attempt < maxRetries c"
  shows "\<exists>s'. retryLoop c w toClient attempt (Got m # q) s = retryLoop c w toClient (attempt + 1) q s'
           \<and> nonSwitch (trace s') = nonSwitch (trace s) @ [Forward, Sleep (retryDelay c)]
           \<and> keepsResponse toClient s s'"
proof -
  from attemptOnce_retryable [OF assms(1) assms(2), of s c toClient attempt q] assms(3)
  obtain s4 sw where h: "trace s4 = trace s @ Forward # sw" "list_all isSwitch sw"
    "attemptOnce c w toClient attempt (Got m # q) s = Retry (await w (record_action (Sleep (retryDelay c)) s4)) q"
    "keepsResponse toClient s s4"
    by auto
  let ?s' = "await w (record_action (Sleep (retryDelay c)) s4)"
  have "retryLoop c w toClient attempt (Got m # q) s = retryLoop c w toClient (attempt + 1) q ?s'"
    using assms(3) h(3) by (subst retryLoop.simps) simp
  moreover have "nonSwitch (trace ?s') = nonSwitch (trace s) @ [Forward, Sleep (retryDelay c)]"
    using h(1) nonSwitch_switches [OF h(2)] by simp
  moreover have "keepsResponse toClient s ?s'"
    using keepsResponse_trans [OF h(4) keepsResponse_trans [OF record_action_keeps await_keeps]] .
  ultimately show ?thesis by blast
qed

lemma retryLoop_last:
  assumes "connected w" and "retryable m" and "attempt = maxRetries c"
  shows "\<exists>t. retryLoop c w toClient attempt (Got m # q) s = LoopDone (Some m) True t q
           \<and> nonSwitch (trace t) = nonSwitch (trace s) @ [Forward]
           \<and> keepsResponse toClient s t
           \<and> (toClient \<and> \<not> writableEnded (res s) \<longrightarrow> headersSent (res t))"
proof -
  from attemptOnce_retryable [OF assms(1) assms(2), of s c toClient attempt q] assms(3)
  obtain s4 sw where h: "trace s4 = trace s @ Forward # sw" "list_all isSwitch sw"
    "attemptOnce c w toClient attempt (Got m # q) s = Stop (LoopDone (Some m) True s4 q)"
    "keepsResponse toClient s s4" "toClient \<and> \<not> writableEnded (res s) \<longrightarrow> headersSent (res s4)"
    by auto
  have "retryLoop c w toClient attempt (Got m # q) s = LoopDone (Some m) True s4 q"
    using assms(3) h(3) by (subst retryLoop.simps) simp
  moreover have "nonSwitch (trace s4) = nonSwitch (trace s) @ [Forward]"
    using h(1) nonSwitch_switches [OF h(2)] by simp
  ultimately show ?thesis using h(4) h(5) by blast
qed

lemma retryLoop_other:
  assumes "connected w" and "\<not> retryable m" and "attempt \<le> maxRetries c"
  shows "retryLoop c w toClient attempt (Got m # q) s
           = LoopDone (Some m) False (await w (record_action Forward s)) q"
  using assms attemptOnce_other [OF assms(1) assms(2), of c toClient attempt q s]
  by (subst retryLoop.simps) simp

lemma retryLoop_errors:
  assumes "connected w" and "list_all retryable errs" and "attempt + int (length errs) \<le> maxRetries c"
  shows "\<exists>s'. retryLoop c w toClient attempt (map Got errs @ q) s
                = retryLoop c w toClient (attempt + int (length errs)) q s'
           \<and> nonSwitch (trace s')
               = nonSwitch (trace s) @ concat (replicate (length errs) [Forward, Sleep (retryDelay c)])
           \<and> keepsResponse toClient s s'"
  using assms(2) assms(3)
proof (induction errs arbitrary: attempt s)
  case Nil
  show ?case by (intro exI [of _ s]) simp
next
  case (Cons m errs)
  from Cons.prems have r: "retryable m" and rest: "list_all retryable errs"
    and lt: "attempt < maxRetries c" and le: "(attempt + 1) + int (length errs) \<le> maxRetries c"
    by simp_all
  from retryLoop_retry [OF assms(1) r lt, of toClient "map Got errs @ q" s]
  obtain s1 where s1: "retryLoop c w toClient attempt (Got m # map Got errs @ q) s
        = retryLoop c w toClient (attempt + 1) (map Got errs @ q) s1"
      "nonSwitch (trace s1) = nonSwitch (trace s) @ [Forward, Sleep (retryDelay c)]"
      "keepsResponse toClient s s1"
    by blast
  from Cons.IH [OF rest le, of s1]
  obtain s' where s': "retryLoop c w toClient (attempt + 1) (map Got errs @ q) s1
        = retryLoop c w toClient (attempt + 1 + int (length errs)) q s'"
      "nonSwitch (trace s')
         = nonSwitch (trace s1) @ concat (replicate (length errs) [Forward, Sleep (retryDelay c)])"
      "keepsResponse toClient s1 s'"
    by blast
  have "attempt + 1 + int (length errs) = attempt + int (length (m # errs))"
    by simp
  with s1 s' keepsResponse_trans [OF s1(3) s'(3)] show ?case
    by (intro exI [of _ s']) simp
qed

lemma await_res_idle [simp]: "connectionMaintainer s = None \<Longrightarrow> res (await w s) = res s"
  by (simp add: await_def)

lemma streamLoop_fields:
  "trace (snd (streamLoop w accepted q s)) = trace s
   \<and> failureCount (snd (streamLoop w accepted q s)) = failureCount s
   \<and> currentAuthIndex (snd (streamLoop w accepted q s)) = currentAuthIndex s
   \<and> isAuthSwitching (snd (streamLoop w accepted q s)) = isAuthSwitching s"
  by (induction w accepted q s rule: streamLoop.induct) (auto split: option.splits)

lemma streamLoop_result:
  "streamLoop w accepted q s = (r, t) \<Longrightarrow>
     trace t = trace s \<and> failureCount t = failureCount s
     \<and> currentAuthIndex t = currentAuthIndex s \<and> isAuthSwitching t = isAuthSwitching s"
  using streamLoop_fields [of w accepted q s] by simp

lemma finalState_simps [simp]:
  "finalState (Inl (e, t)) = t" "finalState (Inr t) = t"
  by (simp_all add: finalState_def)

lemma resultState_simps [simp]:
  "resultState (LoopDone m f t q) = t" "resultState (LoopThrew e t q) = t"
  by (simp_all add: resultState_def)

lemma finalState_send:
  "\<exists>r. finalState (case sendErrorResponse w st n (res t) of
                       Inr r \<Rightarrow> Inr (t\<lparr>res := r\<rparr>)
                     | Inl (e, r) \<Rightarrow> Inl (e, t\<lparr>res := r\<rparr>)) = t\<lparr>res := r\<rparr>"
  by (cases "sendErrorResponse w st n (res t)") auto

lemma realStream_fields:
  fixes w :: world and headerMessage :: msg and t :: sys and q' :: "deq list"
  defines "out \<equiv> (let (accepted, r1) = setResponseHeaders w headerMessage (res t);
                 t1 = t\<lparr>failureCount := 0, res := r1\<rparr>;
                 (thrown, t2) = streamLoop w accepted q' t1
             in if \<not> writableEnded (res t2) \<and> headThrows accepted (res t2)
                then Inl (InvalidStatusCode, t2)
                else
                  (let t3 = onRes (\<lambda>r. if \<not> writableEnded r then res_end r else r) t2
                   in case thrown of
                        None \<Rightarrow> Inr t3
                      | Some error \<Rightarrow> if error \<noteq> QueueTimeout then Inl (error, t3) else Inr t3))"
  shows "trace (finalState out) = trace t \<and> failureCount (finalState out) = 0
     \<and> currentAuthIndex (finalState out) = currentAuthIndex t"
proof -
  obtain accepted r1 where h: "setResponseHeaders w headerMessage (res t) = (accepted, r1)"
    by (cases "setResponseHeaders w headerMessage (res t)")
  obtain thrown t2 where l: "streamLoop w accepted q' (t\<lparr>failureCount := 0, res := r1\<rparr>) = (thrown, t2)"
    by (cases "streamLoop w accepted q' (t\<lparr>failureCount := 0, res := r1\<rparr>)")
  from streamLoop_result [OF l] have f: "trace t2 = trace t" "failureCount t2 = 0"
    "currentAuthIndex t2 = currentAuthIndex t"
    by simp_all
  show ?thesis
    unfolding out_def using h l f by (cases thrown) (simp_all add: Let_def)
qed

lemma pseudoDeliver_fields:
  fixes w :: world and isStreamRequest :: bool and q' :: "deq list" and t :: sys
  defines "out \<equiv> (let t1 = t\<lparr>failureCount := 0\<rparr> in
             case dequeue q' of
               (Inl e, q2) \<Rightarrow> Inl (e, await w t1)
             | (Inr dataMessage, q2) \<Rightarrow>
                 (case dequeue q2 of
                    (Inl e, q3) \<Rightarrow> Inl (e, await w (await w t1))
                  | (Inr endMessage, q3) \<Rightarrow>
                      Inr (onRes (deliver w isStreamRequest dataMessage) (await w (await w t1)))))"
  shows "trace (finalState out) = trace t \<and> failureCount (finalState out) = 0
     \<and> currentAuthIndex (finalState out) = currentAuthIndex t"
  unfolding out_def by (simp add: Let_def split: prod.splits sum.splits)

lemma pseudoTry_trace:
  "trace (finalState (pseudoTry c w b q s)) = trace (resultState (retryLoop c w b 1 q s))"
proof (cases "retryLoop c w b 1 q s")
  case (LoopThrew e t q')
  then show ?thesis by (simp add: pseudoTry_def)
next
  case (LoopDone mo f t q')
  show ?thesis
  proof (cases mo)
    case None
    with LoopDone show ?thesis by (simp add: pseudoTry_def)
  next
    case (Some m)
    show ?thesis
    proof (cases "event_type m = Some ''error'' \<or> f")
      case True
      from finalState_send [where w = w and st = "status (parseAndCorrectErrorDetails m)"
          and n = "RequestFailed (message (parseAndCorrectErrorDetails m))" and t = t]
      obtain r where "finalState (case sendErrorResponse w (status (parseAndCorrectErrorDetails m))
             (RequestFailed (message (parseAndCorrectErrorDetails m))) (res t) of
                       Inr r \<Rightarrow> Inr (t\<lparr>res := r\<rparr>)
                     | Inl (e, r) \<Rightarrow> Inl (e, t\<lparr>res := r\<rparr>)) = t\<lparr>res := r\<rparr>"
        by blast
      with LoopDone Some True show ?thesis
        by (simp add: pseudoTry_def Let_def)
    next
      case False
      with LoopDone Some pseudoDeliver_fields [where w = w and isStreamRequest = b and q' = q' and t = t] show ?thesis
        by (simp add: pseudoTry_def)
    qed
  qed
qed

lemma real_trace:
  "trace (finalState (handleRealStreamResponse c w q s)) = trace (resultState (retryLoop c w False 1 q s))"
proof (cases "retryLoop c w False 1 q s")
  case (LoopThrew e t q')
  then show ?thesis by (simp add: handleRealStreamResponse_def)
next
  case (LoopDone mo f t q')
  show ?thesis
  proof (cases mo)
    case None
    with LoopDone show ?thesis by (simp add: handleRealStreamResponse_def)
  next
    case (Some m)
    show ?thesis
    proof (cases "event_type m = Some ''error'' \<or> f")
      case True
      from finalState_send [where w = w and st = "status (parseAndCorrectErrorDetails m)"
          and n = "UpstreamMessage (message (parseAndCorrectErrorDetails m))" and t = t]
      obtain r where "finalState (case sendErrorResponse w (status (parseAndCorrectErrorDetails m))
             (UpstreamMessage (message (parseAndCorrectErrorDetails m))) (res t) of
                       Inr r \<Rightarrow> Inr (t\<lparr>res := r\<rparr>)
                     | Inl (e, r) \<Rightarrow> Inl (e, t\<lparr>res := r\<rparr>)) = t\<lparr>res := r\<rparr>"
        by blast
      with LoopDone Some True show ?thesis
        by (simp add: handleRealStreamResponse_def Let_def)
    next
      case False
      with LoopDone Some realStream_fields [where w = w and headerMessage = m and t = t and q' = q'] show ?thesis
        by (simp add: handleRealStreamResponse_def)
    qed
  qed
qed

lemma pseudo_trace:
  "\<exists>s1. trace s1 = trace s
     \<and> trace (handlePseudoStreamResponse c w rq q s)
         = trace (resultState (retryLoop c w (includes_str (path rq) '':stream'') 1 q s1))"
proof -
  let ?b = "includes_str (path rq) '':stream''"
  let ?s1 = "if ?b then openEventStream rq s else s"
  have a: "trace ?s1 = trace s" by (simp add: openEventStream_def)
  have "trace (handlePseudoStreamResponse c w rq q s) = trace (finalState (pseudoTry c w ?b q ?s1))"
    by (cases "pseudoTry c w ?b q ?s1")
       (auto simp: handlePseudoStreamResponse_def Let_def split: prod.splits)
  with a pseudoTry_trace [of c w ?b q ?s1] show ?thesis
    by metis
qed

lemma handlers_forward_bound:
  "count_list (trace (handlePseudoStreamResponse c w rq q s)) Forward
      \<le> count_list (trace s) Forward + nat (maxRetries c)
   \<and> count_list (trace (finalState (handleRealStreamResponse c w q s))) Forward
      \<le> count_list (trace s) Forward + nat (maxRetries c)"
proof -
  from pseudo_trace [of s c w rq q] obtain s1 where s1: "trace s1 = trace s"
    "trace (handlePseudoStreamResponse c w rq q s)
         = trace (resultState (retryLoop c w (includes_str (path rq) '':stream'') 1 q s1))"
    by blast
  from retryLoop_forwards [of c w "includes_str (path rq) '':stream''" 1 q s1] s1
  have a: "count_list (trace (handlePseudoStreamResponse c w rq q s)) Forward
      \<le> count_list (trace s) Forward + nat (maxRetries c)"
    by simp
  from retryLoop_forwards [of c w False 1 q s] real_trace [of c w q s]
  have b: "count_list (trace (finalState (handleRealStreamResponse c w q s))) Forward
      \<le> count_list (trace s) Forward + nat (maxRetries c)"
    by simp
  from a b show ?thesis by blast
qed

lemma parse_keeps [simp]:
  "message (parseAndCorrectErrorDetails m) = message m"
  "event_type (parseAndCorrectErrorDetails m) = event_type m"
  by (simp_all add: parseAndCorrectErrorDetails_status split: option.splits)

lemma real_success_resets:
  assumes "retryLoop c w False 1 q0 s = LoopDone (Some m) False t q" and "event_type m \<noteq> Some ''error''"
  shows "failureCount (finalState (handleRealStreamResponse c w q0 s)) = 0"
  using assms realStream_fields [where w = w and headerMessage = m and t = t and q' = q]
  by (simp add: handleRealStreamResponse_def)

lemma pseudoTry_success_resets:
  assumes "retryLoop c w b 1 q0 s = LoopDone (Some m) False t q" and "event_type m \<noteq> Some ''error''"
  shows "failureCount (finalState (pseudoTry c w b q0 s)) = 0"
  using assms pseudoDeliver_fields [where w = w and isStreamRequest = b and q' = q and t = t]
  by (simp add: pseudoTry_def)

lemma pseudo_final:
  "failureCount (handlePseudoStreamResponse c w rq q s)
      = failureCount (finalState (pseudoTry c w (includes_str (path rq) '':stream'') q
            (if includes_str (path rq) '':stream'' then openEventStream rq s else s)))"
  by (cases "pseudoTry c w (includes_str (path rq) '':stream'') q
            (if includes_str (path rq) '':stream'' then openEventStream rq s else s)")
     (auto simp: handlePseudoStreamResponse_def Let_def split: prod.splits)


lemma await_idle:
  "connectionMaintainer s = None \<Longrightarrow> await w s = s\<lparr>clock := clock s + 1\<rparr>"
  by (simp add: await_def)




text \<open>The retry loop on a script that starts with retryable errors, as a whole.\<close>

lemma loop_exhausted:
  assumes cn: "connected w" and es: "list_all retryable errs" and r: "retryable m"
    and n: "1 + int (length errs) = maxRetries c"
  shows "\<exists>t. retryLoop c w b 1 (map Got errs @ Got m # q) x = LoopDone (Some m) True t q
           \<and> nonSwitch (trace t)
               = nonSwitch (trace x) @ concat (replicate (length errs) [Forward, Sleep (retryDelay c)]) @ [Forward]
           \<and> keepsResponse b x t
           \<and> (b \<and> \<not> writableEnded (res x) \<longrightarrow> headersSent (res t))"
proof -
  from n have le: "1 + int (length errs) \<le> maxRetries c"
    by simp
  from retryLoop_errors [OF cn es le, of b "Got m # q" x] obtain s' where
    p: "retryLoop c w b 1 (map Got errs @ Got m # q) x = retryLoop c w b (1 + int (length errs)) (Got m # q) s'"
       "nonSwitch (trace s') = nonSwitch (trace x) @ concat (replicate (length errs) [Forward, Sleep (retryDelay c)])"
       "keepsResponse b x s'"
    by blast
  from retryLoop_last [OF cn r n, of b q s'] obtain t where
    l: "retryLoop c w b (1 + int (length errs)) (Got m # q) s' = LoopDone (Some m) True t q"
       "nonSwitch (trace t) = nonSwitch (trace s') @ [Forward]"
       "keepsResponse b s' t" "b \<and> \<not> writableEnded (res s') \<longrightarrow> headersSent (res t)"
    by blast
  from p(3) have "writableEnded (res s') = writableEnded (res x)"
    by (simp add: keepsResponse_def)
  with l(4) have hs: "b \<and> \<not> writableEnded (res x) \<longrightarrow> headersSent (res t)"
    by simp
  from p l keepsResponse_trans [OF p(3) l(3)] hs show ?thesis
    by simp
qed

lemma loop_ended:
  assumes cn: "connected w" and es: "list_all retryable errs" and r: "\<not> retryable m"
    and n: "1 + int (length errs) \<le> maxRetries c"
  shows "\<exists>t. retryLoop c w b 1 (map Got errs @ Got m # q) x = LoopDone (Some m) False t q
           \<and> nonSwitch (trace t)
               = nonSwitch (trace x) @ concat (replicate (length errs) [Forward, Sleep (retryDelay c)]) @ [Forward]
           \<and> keepsResponse b x t"
proof -
  from retryLoop_errors [OF cn es n, of b "Got m # q" x] obtain s' where
    p: "retryLoop c w b 1 (map Got errs @ Got m # q) x = retryLoop c w b (1 + int (length errs)) (Got m # q) s'"
       "nonSwitch (trace s') = nonSwitch (trace x) @ concat (replicate (length errs) [Forward, Sleep (retryDelay c)])"
       "keepsResponse b x s'"
    by blast
  have k: "keepsResponse b s' (await w (record_action Forward s'))"
    using keepsResponse_trans [OF record_action_keeps await_keeps] .
  from retryLoop_other [OF cn r n, of b q s'] p keepsResponse_trans [OF p(3) k] show ?thesis
    by simp
qed

text \<open>The status of a retryable event with a number for its status, after the reconciliation.\<close>

lemma retryable_status_range:
  assumes "retryable m" and "status m = JNum n"
  shows "\<exists>k. 400 \<le> k \<and> k \<le> 599 \<and> status (parseAndCorrectErrorDetails m) = JNum k"
proof -
  from assms have "400 \<le> n \<and> n \<le> 599"
    by (simp add: retryable_def toNumber_def)
  with assms(2) show ?thesis
    by (cases "embeddedStatus strictHere m") (auto simp: parseAndCorrectErrorDetails_status)
qed

lemma send_accepted:
  assumes "400 \<le> k" and "k \<le> 599" and "\<not> headersSent r"
  shows "sendErrorResponse w (JNum k) n r = Inr (res_send k ''text/plain'' (PlainBody n) r)"
  using assms by (simp add: sendErrorResponse_def orDefault_def truthyVal_def statusLine_def)

text \<open>The two handlers after the last attempt was answered by a retryable error.\<close>

lemma real_exhausted:
  assumes loop: "retryLoop c w False 1 q0 s = LoopDone (Some m) True t q"
    and keeps: "keepsResponse False s t"
    and fresh: "res s = freshResponse" and idle: "connectionMaintainer s = None"
    and k: "status (parseAndCorrectErrorDetails m) = JNum k" "400 \<le> k" "k \<le> 599"
  shows "handleRealStreamResponse c w q0 s
     = Inr (t\<lparr>res := res_send k ''text/plain'' (PlainBody (UpstreamMessage (message m))) freshResponse\<rparr>)"
proof -
  from keeps fresh idle have rt: "res t = freshResponse"
    by (simp add: keepsResponse_def)
  have "\<not> headersSent freshResponse"
    by (simp add: freshResponse_def)
  from send_accepted [OF k(2) k(3) this, of w] loop rt k(1) show ?thesis
    by (simp add: handleRealStreamResponse_def Let_def)
qed

lemma pseudo_exhausted_plain:
  assumes loop: "retryLoop c w False 1 q0 s = LoopDone (Some m) True t q"
    and keeps: "keepsResponse False s t"
    and fresh: "res s = freshResponse" and idle: "connectionMaintainer s = None"
    and k: "status (parseAndCorrectErrorDetails m) = JNum k" "400 \<le> k" "k \<le> 599"
    and plain: "\<not> includes_str (path rq) '':stream''"
  shows "res (handlePseudoStreamResponse c w rq q0 s)
     = res_send k ''text/plain'' (PlainBody (RequestFailed (message m))) freshResponse"
proof -
  from keeps fresh idle have rt: "res t = freshResponse"
    by (simp add: keepsResponse_def)
  have nh: "\<not> headersSent freshResponse"
    by (simp add: freshResponse_def)
  have tr1: "pseudoTry c w False q0 s
      = Inr (t\<lparr>res := res_send k ''text/plain'' (PlainBody (RequestFailed (message m))) freshResponse\<rparr>)"
    using send_accepted [OF k(2) k(3) nh, of w] loop rt k(1) nh
    by (simp add: pseudoTry_def Let_def)
  show ?thesis
    using plain by (simp add: handlePseudoStreamResponse_def Let_def tr1 res_send_def res_end_def)
qed

lemma pseudo_exhausted_stream:
  assumes loop: "retryLoop c w True 1 q0 (openEventStream rq s) = LoopDone (Some m) True t q"
    and keeps: "keepsResponse True (openEventStream rq s) t"
    and sent: "True \<and> \<not> writableEnded (res (openEventStream rq s)) \<longrightarrow> headersSent (res t)"
    and fresh: "res s = freshResponse"
    and stream: "includes_str (path rq) '':stream''"
  shows "written (res (handlePseudoStreamResponse c w rq q0 s))
     = written (res t) @ [ErrorChunk (FinalFailure (status (parseAndCorrectErrorDetails m)) (message m))]
     \<and> writableEnded (res (handlePseudoStreamResponse c w rq q0 s))"
proof -
  have ne: "\<not> writableEnded (res (openEventStream rq s))"
    using fresh by (simp add: openEventStream_def res_set_def freshResponse_def)
  with keeps sent have t: "\<not> writableEnded (res t)" "headersSent (res t)"
    by (simp_all add: keepsResponse_def)
  have tr1: "pseudoTry c w True q0 (openEventStream rq s)
      = Inr (onRes (sendErrorChunkToClient
               (FinalFailure (status (parseAndCorrectErrorDetails m)) (message m))) t)"
    using loop t by (simp add: pseudoTry_def Let_def)
  show ?thesis
    using stream t
    by (simp add: handlePseudoStreamResponse_def Let_def tr1 sendErrorChunkToClient_def
        res_write_def res_end_def)
qed

lemma pseudo_ends: "writableEnded (res (handlePseudoStreamResponse c w rq q0 s))"
  by (simp add: handlePseudoStreamResponse_def Let_def res_end_def)


text \<open>
  Claim C1. Under either streaming policy of the full server a request sends its descriptor
  at most \<open>maxRetries\<close> times, whatever the worker answers; the default is 3. While the
  first event of an attempt is an error with a status in 400..599 and attempts remain, the
  handler sends, sleeps \<open>retryDelay\<close> and tries again. When such an error answers the last
  attempt, the loop ends with \<open>requestFailed\<close> set and without a further sleep, and the
  handler sends and sleeps nothing more and fails the request: with a fresh response and a
  number for the status, \<open>_handleRealStreamResponse\<close> answers with the reconciled status, a
  number in 400..599, and the message of the error as plain text; \<open>_handlePseudoStreamResponse\<close>
  does the same for a request that is no stream request and, for a stream request, writes
  the final failure notice as the last frame; it always ends the response. An event that is
  not such an error ends the loop on its attempt with \<open>requestFailed\<close> unset, and the
  handler sends and sleeps nothing after it; when that event is not an error at all (a
  header) both handlers go on to reset the failure counter. The effects are read off the
  trace of each handler, the account switches left out.
\<close>

theorem C1_retry_loop:
  fixes c :: config and w :: world and s :: sys and errs :: "msg list" and m :: msg
    and q script :: "deq list" and rq :: req and toClient :: bool
  defines "d \<equiv> retryDelay c"
  defines "q0 \<equiv> map Got errs @ Got m # q"
  defines "sends \<equiv> concat (replicate (length errs) [Forward, Sleep d]) @ [Forward]"
  defines "realEnd \<equiv> finalState (handleRealStreamResponse c w q0 s)"
  defines "pseudoEnd \<equiv> handlePseudoStreamResponse c w rq q0 s"
  shows "count_list (trace (handlePseudoStreamResponse c w rq script s)) Forward
            \<le> count_list (trace s) Forward + nat (maxRetries c)
       \<and> count_list (trace (finalState (handleRealStreamResponse c w script s))) Forward
            \<le> count_list (trace s) Forward + nat (maxRetries c)
       \<and> maxRetries defaultConfig = 3
       \<and> writableEnded (res (handlePseudoStreamResponse c w rq script s))
       \<and> (connected w \<and> list_all retryable errs \<and> retryable m \<and> 1 + int (length errs) = maxRetries c
            \<longrightarrow> (\<exists>t. retryLoop c w toClient 1 q0 s = LoopDone (Some m) True t q
                  \<and> nonSwitch (trace t) = nonSwitch (trace s) @ sends)
              \<and> nonSwitch (trace realEnd) = nonSwitch (trace s) @ sends
              \<and> nonSwitch (trace pseudoEnd) = nonSwitch (trace s) @ sends
              \<and> (res s = freshResponse \<and> connectionMaintainer s = None \<and> (\<exists>n. status m = JNum n)
                   \<longrightarrow> (\<exists>k. 400 \<le> k \<and> k \<le> 599
                          \<and> status (parseAndCorrectErrorDetails m) = JNum k
                          \<and> handleRealStreamResponse c w q0 s = Inr realEnd
                          \<and> res realEnd
                              = res_send k ''text/plain'' (PlainBody (UpstreamMessage (message m))) freshResponse
                          \<and> (if includes_str (path rq) '':stream''
                              then (\<exists>pre. written (res pseudoEnd)
                                      = pre @ [ErrorChunk (FinalFailure (JNum k) (message m))])
                              else res pseudoEnd
                                     = res_send k ''text/plain'' (PlainBody (RequestFailed (message m)))
                                         freshResponse))))
       \<and> (connected w \<and> list_all retryable errs \<and> \<not> retryable m \<and> 1 + int (length errs) \<le> maxRetries c
            \<longrightarrow> (\<exists>t. retryLoop c w toClient 1 q0 s = LoopDone (Some m) False t q
                  \<and> nonSwitch (trace t) = nonSwitch (trace s) @ sends)
              \<and> nonSwitch (trace realEnd) = nonSwitch (trace s) @ sends
              \<and> nonSwitch (trace pseudoEnd) = nonSwitch (trace s) @ sends)
       \<and> (connected w \<and> list_all retryable errs \<and> event_type m \<noteq> Some ''error''
              \<and> 1 + int (length errs) \<le> maxRetries c
            \<longrightarrow> failureCount realEnd = 0 \<and> failureCount pseudoEnd = 0)"
proof -
  define b where "b = includes_str (path rq) '':stream''"
  define s1 where "s1 = (if b then openEventStream rq s else s)"
  have tr1: "trace s1 = trace s"
    by (simp add: s1_def openEventStream_def)
  have ptrace: "trace (handlePseudoStreamResponse c w rq q0 s) = trace (resultState (retryLoop c w b 1 q0 s1))"
  proof -
    have "trace (handlePseudoStreamResponse c w rq q0 s) = trace (finalState (pseudoTry c w b q0 s1))"
      by (cases "pseudoTry c w b q0 s1")
         (auto simp: handlePseudoStreamResponse_def Let_def b_def s1_def split: prod.splits)
    with pseudoTry_trace [of c w b q0 s1] show ?thesis
      by simp
  qed
  have bound: "count_list (trace (handlePseudoStreamResponse c w rq script s)) Forward
            \<le> count_list (trace s) Forward + nat (maxRetries c)
       \<and> count_list (trace (finalState (handleRealStreamResponse c w script s))) Forward
            \<le> count_list (trace s) Forward + nat (maxRetries c)"
    by (rule handlers_forward_bound)
  have dflt: "maxRetries defaultConfig = 3"
    by (simp add: defaultConfig_def)
  have ends: "writableEnded (res (handlePseudoStreamResponse c w rq script s))"
    by (rule pseudo_ends)
  have exhausted: "(\<exists>t. retryLoop c w toClient 1 q0 s = LoopDone (Some m) True t q
                  \<and> nonSwitch (trace t) = nonSwitch (trace s) @ sends)
              \<and> nonSwitch (trace realEnd) = nonSwitch (trace s) @ sends
              \<and> nonSwitch (trace pseudoEnd) = nonSwitch (trace s) @ sends
              \<and> (res s = freshResponse \<and> connectionMaintainer s = None \<and> (\<exists>n. status m = JNum n)
                   \<longrightarrow> (\<exists>k. 400 \<le> k \<and> k \<le> 599
                          \<and> status (parseAndCorrectErrorDetails m) = JNum k
                          \<and> handleRealStreamResponse c w q0 s = Inr realEnd
                          \<and> res realEnd
                              = res_send k ''text/plain'' (PlainBody (UpstreamMessage (message m))) freshResponse
                          \<and> (if includes_str (path rq) '':stream''
                              then (\<exists>pre. written (res pseudoEnd)
                                      = pre @ [ErrorChunk (FinalFailure (JNum k) (message m))])
                              else res pseudoEnd
                                     = res_send k ''text/plain'' (PlainBody (RequestFailed (message m)))
                                         freshResponse)))"
    if cn: "connected w" and es: "list_all retryable errs" and r: "retryable m"
      and n: "1 + int (length errs) = maxRetries c"
  proof -
    note ex = loop_exhausted [OF cn es r n, where q = q, folded q0_def d_def, folded sends_def]
    from ex [of toClient s]
    have a: "\<exists>t. retryLoop c w toClient 1 q0 s = LoopDone (Some m) True t q
                  \<and> nonSwitch (trace t) = nonSwitch (trace s) @ sends"
      by blast
    from ex [of False s] obtain t where
      t: "retryLoop c w False 1 q0 s = LoopDone (Some m) True t q"
         "nonSwitch (trace t) = nonSwitch (trace s) @ sends" "keepsResponse False s t"
      by blast
    from ex [of b s1] obtain u where
      u: "retryLoop c w b 1 q0 s1 = LoopDone (Some m) True u q"
         "nonSwitch (trace u) = nonSwitch (trace s1) @ sends" "keepsResponse b s1 u"
         "b \<and> \<not> writableEnded (res s1) \<longrightarrow> headersSent (res u)"
      by blast
    have b1: "nonSwitch (trace realEnd) = nonSwitch (trace s) @ sends"
      using real_trace [of c w q0 s] t by (simp add: realEnd_def)
    have c1: "nonSwitch (trace pseudoEnd) = nonSwitch (trace s) @ sends"
      using ptrace u tr1 by (simp add: pseudoEnd_def)
    have d1: "\<exists>k. 400 \<le> k \<and> k \<le> 599
                          \<and> status (parseAndCorrectErrorDetails m) = JNum k
                          \<and> handleRealStreamResponse c w q0 s = Inr realEnd
                          \<and> res realEnd
                              = res_send k ''text/plain'' (PlainBody (UpstreamMessage (message m))) freshResponse
                          \<and> (if includes_str (path rq) '':stream''
                              then (\<exists>pre. written (res pseudoEnd)
                                      = pre @ [ErrorChunk (FinalFailure (JNum k) (message m))])
                              else res pseudoEnd
                                     = res_send k ''text/plain'' (PlainBody (RequestFailed (message m)))
                                         freshResponse)"
      if fresh: "res s = freshResponse" and idle: "connectionMaintainer s = None"
        and num: "\<exists>n. status m = JNum n"
    proof -
      from num obtain n0 where "status m = JNum n0"
        by blast
      from retryable_status_range [OF r this] obtain k where
        k: "400 \<le> k" "k \<le> 599" "status (parseAndCorrectErrorDetails m) = JNum k"
        by blast
      note re = real_exhausted [OF t(1) t(3) fresh idle k(3) k(1) k(2)]
      have r1: "handleRealStreamResponse c w q0 s = Inr realEnd"
        by (simp add: realEnd_def re)
      have r2: "res realEnd
          = res_send k ''text/plain'' (PlainBody (UpstreamMessage (message m))) freshResponse"
        by (simp add: realEnd_def re)
      have r3: "if includes_str (path rq) '':stream''
                then (\<exists>pre. written (res pseudoEnd)
                        = pre @ [ErrorChunk (FinalFailure (JNum k) (message m))])
                else res pseudoEnd
                       = res_send k ''text/plain'' (PlainBody (RequestFailed (message m))) freshResponse"
      proof (cases "includes_str (path rq) '':stream''")
        case True
        then have bs: "b" "s1 = openEventStream rq s"
          by (simp_all add: b_def s1_def)
        from u bs have
          l: "retryLoop c w True 1 q0 (openEventStream rq s) = LoopDone (Some m) True u q"
          and kp: "keepsResponse True (openEventStream rq s) u"
          and hs: "True \<and> \<not> writableEnded (res (openEventStream rq s)) \<longrightarrow> headersSent (res u)"
          by simp_all
        from pseudo_exhausted_stream [OF l kp hs fresh True] k(3) True show ?thesis
          by (simp add: pseudoEnd_def)
      next
        case False
        from pseudo_exhausted_plain [OF t(1) t(3) fresh idle k(3) k(1) k(2) False] False show ?thesis
          by (simp add: pseudoEnd_def)
      qed
      from k r1 r2 r3 show ?thesis
        by blast
    qed
    from a b1 c1 d1 show ?thesis
      by blast
  qed
  have ended: "(\<exists>t. retryLoop c w toClient 1 q0 s = LoopDone (Some m) False t q
                  \<and> nonSwitch (trace t) = nonSwitch (trace s) @ sends)
              \<and> nonSwitch (trace realEnd) = nonSwitch (trace s) @ sends
              \<and> nonSwitch (trace pseudoEnd) = nonSwitch (trace s) @ sends"
    if cn: "connected w" and es: "list_all retryable errs" and r: "\<not> retryable m"
      and n: "1 + int (length errs) \<le> maxRetries c"
  proof -
    note en = loop_ended [OF cn es r n, where q = q, folded q0_def d_def, folded sends_def]
    from en [of toClient s]
    have a: "\<exists>t. retryLoop c w toClient 1 q0 s = LoopDone (Some m) False t q
                  \<and> nonSwitch (trace t) = nonSwitch (trace s) @ sends"
      by blast
    from en [of False s] obtain t where
      t: "retryLoop c w False 1 q0 s = LoopDone (Some m) False t q"
         "nonSwitch (trace t) = nonSwitch (trace s) @ sends"
      by blast
    from en [of b s1] obtain u where
      u: "retryLoop c w b 1 q0 s1 = LoopDone (Some m) False u q"
         "nonSwitch (trace u) = nonSwitch (trace s1) @ sends"
      by blast
    have b1: "nonSwitch (trace realEnd) = nonSwitch (trace s) @ sends"
      using real_trace [of c w q0 s] t by (simp add: realEnd_def)
    have c1: "nonSwitch (trace pseudoEnd) = nonSwitch (trace s) @ sends"
      using ptrace u tr1 by (simp add: pseudoEnd_def)
    from a b1 c1 show ?thesis
      by blast
  qed
  have success: "failureCount realEnd = 0 \<and> failureCount pseudoEnd = 0"
    if cn: "connected w" and es: "list_all retryable errs" and h: "event_type m \<noteq> Some ''error''"
      and n: "1 + int (length errs) \<le> maxRetries c"
  proof -
    from h have r: "\<not> retryable m" by (simp add: retryable_def)
    note en = loop_ended [OF cn es r n, where q = q, folded q0_def]
    from en [of False s] real_success_resets [OF _ h]
    have a: "failureCount (finalState (handleRealStreamResponse c w q0 s)) = 0"
      by blast
    from en [of b s1] pseudoTry_success_resets [OF _ h]
    have "failureCount (finalState (pseudoTry c w b q0 s1)) = 0"
      by blast
    then have "failureCount (handlePseudoStreamResponse c w rq q0 s) = 0"
      by (simp add: pseudo_final s1_def b_def)
    with a show ?thesis
      by (simp add: realEnd_def pseudoEnd_def)
  qed
  from bound dflt ends exhausted ended success show ?thesis
    by blast
qed

theorem C1_retry_loop_witness:
  "nonSwitch (trace (finalState (handleRealStreamResponse (exampleConfig 0 []) (exampleWorld Ready)
       [Got (errorEvent (Some 500) ''boom''), Got (errorEvent (Some 503) ''boom''),
        Got (errorEvent (Some 500) ''boom'')] idleServer)))
     = [Forward, Sleep 2000, Forward, Sleep 2000, Forward]
   \<and> nonSwitch (trace (handlePseudoStreamResponse (exampleConfig 0 []) (exampleWorld Ready) generateContent
       [Got (errorEvent (Some 500) ''boom''), Got (errorEvent (Some 503) ''boom''),
        Got (errorEvent (Some 500) ''boom'')] idleServer))
     = [Forward, Sleep 2000, Forward, Sleep 2000, Forward]
   \<and> res (finalState (handleRealStreamResponse (exampleConfig 0 []) (exampleWorld Ready)
       [Got (errorEvent (Some 500) ''boom''), Got (errorEvent (Some 503) ''boom''),
        Got (errorEvent (Some 500) ''boom'')] idleServer))
     = res_send 500 ''text/plain'' (PlainBody (UpstreamMessage (Some ''boom''))) freshResponse
   \<and> res (handlePseudoStreamResponse (exampleConfig 0 []) (exampleWorld Ready) generateContent
       [Got (errorEvent (Some 500) ''boom''), Got (errorEvent (Some 503) ''boom''),
        Got (errorEvent (Some 500) ''boom'')] idleServer)
     = res_send 500 ''text/plain'' (PlainBody (RequestFailed (Some ''boom''))) freshResponse
   \<and> nonSwitch (trace (finalState (handleRealStreamResponse (exampleConfig 0 []) (exampleWorld Ready)
         [Got (errorEvent (Some 503) ''boom''), Got (headerEvent 200 []), Got (chunkEvent ''x'')]
         idleServer)))
     = [Forward, Sleep 2000, Forward]
   \<and> failureCount (finalState (handleRealStreamResponse (exampleConfig 0 []) (exampleWorld Ready)
         [Got (errorEvent (Some 503) ''boom''), Got (headerEvent 200 []), Got (chunkEvent ''x'')]
         (idleServer\<lparr>failureCount := 2\<rparr>))) = 0"
proof -
  define c where "c = exampleConfig 0 []"
  define w where "w = exampleWorld Ready"
  define e where "e = errorEvent (Some 500) ''boom''"
  define f where "f = errorEvent (Some 503) ''boom''"
  define h where "h = headerEvent 200 []"
  have cn: "connected w" and mr: "maxRetries c = 3" and rd: "retryDelay c = 2000"
    by (simp_all add: w_def c_def exampleWorld_def exampleConfig_def)
  have re: "retryable e" "retryable f" "\<not> retryable h" "event_type h \<noteq> Some ''error''"
    "status e = JNum 500" "message e = Some ''boom''"
    by (simp_all add: e_def f_def h_def retryable_def toNumber_def errorEvent_def errorEventWith_def
        headerEvent_def emptyMsg_def)
  have pe: "status (parseAndCorrectErrorDetails e) = JNum 500"
    by (simp add: e_def parseAndCorrectErrorDetails_def errorEvent_def errorEventWith_def emptyMsg_def
        pattern_eval)
  have st: "trace idleServer = []" "trace (idleServer\<lparr>failureCount := 2\<rparr>) = []"
    "res idleServer = freshResponse" "connectionMaintainer idleServer = None"
    "\<not> includes_str (path generateContent) '':stream''"
    by (simp_all add: idleServer_def generateContent_def)
  have len: "concat (replicate (length [e, f]) [Forward, Sleep 2000]) @ [Forward]
      = [Forward, Sleep 2000, Forward, Sleep 2000, Forward]"
    "concat (replicate (length [f]) [Forward, Sleep 2000]) @ [Forward] = [Forward, Sleep 2000, Forward]"
    by (simp_all add: numeral_2_eq_2)
  note t1 = C1_retry_loop [where c = c and w = w and errs = "[e, f]" and m = e and q = "[]"
      and s = idleServer and toClient = False and rq = generateContent and script = "[]"]
  note t2 = C1_retry_loop [where c = c and w = w and errs = "[f]" and m = h and q = "[Got (chunkEvent ''x'')]"
      and s = idleServer and toClient = False and rq = generateContent and script = "[]"]
  note t3 = C1_retry_loop [where c = c and w = w and errs = "[f]" and m = h and q = "[Got (chunkEvent ''x'')]"
      and s = "idleServer\<lparr>failureCount := 2\<rparr>" and toClient = False and rq = generateContent
      and script = "[]"]
  have hyp1: "connected w \<and> list_all retryable [e, f] \<and> retryable e \<and> 1 + int (length [e, f]) = maxRetries c"
    using cn re mr by simp
  have hyp1b: "res idleServer = freshResponse \<and> connectionMaintainer idleServer = None
      \<and> (\<exists>n. status e = JNum n)"
    using st re by simp
  have hyp2: "connected w \<and> list_all retryable [f] \<and> \<not> retryable h \<and> 1 + int (length [f]) \<le> maxRetries c"
    using cn re mr by simp
  have hyp3: "connected w \<and> list_all retryable [f] \<and> event_type h \<noteq> Some ''error''
      \<and> 1 + int (length [f]) \<le> maxRetries c"
    using cn re mr by simp
  from t1 hyp1
  have a: "nonSwitch (trace (finalState (handleRealStreamResponse c w (map Got [e, f] @ Got e # []) idleServer)))
        = nonSwitch (trace idleServer) @ concat (replicate (length [e, f]) [Forward, Sleep (retryDelay c)]) @ [Forward]"
    and b: "nonSwitch (trace (handlePseudoStreamResponse c w generateContent (map Got [e, f] @ Got e # []) idleServer))
        = nonSwitch (trace idleServer) @ concat (replicate (length [e, f]) [Forward, Sleep (retryDelay c)]) @ [Forward]"
    and k: "\<exists>k. 400 \<le> k \<and> k \<le> 599
                          \<and> status (parseAndCorrectErrorDetails e) = JNum k
                          \<and> handleRealStreamResponse c w (map Got [e, f] @ Got e # []) idleServer
                              = Inr (finalState (handleRealStreamResponse c w (map Got [e, f] @ Got e # []) idleServer))
                          \<and> res (finalState (handleRealStreamResponse c w (map Got [e, f] @ Got e # []) idleServer))
                              = res_send k ''text/plain'' (PlainBody (UpstreamMessage (message e))) freshResponse
                          \<and> (if includes_str (path generateContent) '':stream''
                              then (\<exists>pre. written (res (handlePseudoStreamResponse c w generateContent (map Got [e, f] @ Got e # []) idleServer))
                                      = pre @ [ErrorChunk (FinalFailure (JNum k) (message e))])
                              else res (handlePseudoStreamResponse c w generateContent (map Got [e, f] @ Got e # []) idleServer)
                                     = res_send k ''text/plain'' (PlainBody (RequestFailed (message e)))
                                         freshResponse)"
    using hyp1b by blast+
  from k pe re st
  have k1: "res (finalState (handleRealStreamResponse c w (map Got [e, f] @ Got e # []) idleServer))
        = res_send 500 ''text/plain'' (PlainBody (UpstreamMessage (Some ''boom''))) freshResponse"
    and k2: "res (handlePseudoStreamResponse c w generateContent (map Got [e, f] @ Got e # []) idleServer)
        = res_send 500 ''text/plain'' (PlainBody (RequestFailed (Some ''boom''))) freshResponse"
    by auto
  from t2 hyp2
  have g: "nonSwitch (trace (finalState (handleRealStreamResponse c w
          (map Got [f] @ Got h # [Got (chunkEvent ''x'')]) idleServer)))
        = nonSwitch (trace idleServer) @ concat (replicate (length [f]) [Forward, Sleep (retryDelay c)]) @ [Forward]"
    by blast
  from t3 hyp3
  have i: "failureCount (finalState (handleRealStreamResponse c w
          (map Got [f] @ Got h # [Got (chunkEvent ''x'')]) (idleServer\<lparr>failureCount := 2\<rparr>))) = 0"
    by blast
  from a b k1 k2 g i show ?thesis
    using st len rd by (simp add: c_def w_def e_def f_def h_def)
qed




lemmas loop_eval =
  retryLoop.simps attemptOnce_def forwardRequest_def retryable_def toNumber_def strToNumber_def
  trim_def digitsValue_def parseAndCorrectErrorDetails_def processRequest_def
  handleRealStreamResponse_def
  sendErrorResponse_def statusLine_def orDefault_def truthyVal_def
  handleRequestError_def sendError_def res_send_def res_end_def res_write_def res_set_def
  freshResponse_def onRes_def generateContent_def headerEvent_def chunkEvent_def resultState_def

lemma pseudo_plain_trace:
  assumes "\<not> includes_str (path rq) '':stream''"
  shows "trace (handlePseudoStreamResponse c w rq q s) = trace (resultState (retryLoop c w False 1 q s))"
proof -
  have "trace (handlePseudoStreamResponse c w rq q s) = trace (finalState (pseudoTry c w False q s))"
    using assms
    by (cases "pseudoTry c w False q s")
       (auto simp: handlePseudoStreamResponse_def Let_def split: prod.splits)
  with pseudoTry_trace [of c w False q s] show ?thesis
    by simp
qed

text \<open>
  The claim as the specification words it fails for a status that is not a number and yet
  compares as one. The error event with the string \<open>'500'\<close> for its status has a status
  field that is no number, but the comparison converts it: with three such events and a
  threshold of 3 the request sends three times, sleeps twice, counts each failure and
  switches to the credential 3, under both policies. And where the status is a number that
  the HTTP library refuses, 1000, the request does end on the first attempt, yet the client
  is given not that error but the status 500 and the text of the exception of the send.
\<close>

theorem C10_non_retryable_error_counterexample:
  "event_type (errorEventWith (JStr ''500'') ''boom'') = Some ''error''
   \<and> status (errorEventWith (JStr ''500'') ''boom'') = JStr ''500''
   \<and> trace (processRequest (exampleConfig 3 []) (exampleWorld Ready) False generateContent
        [Got (errorEventWith (JStr ''500'') ''boom''), Got (errorEventWith (JStr ''500'') ''boom''),
         Got (errorEventWith (JStr ''500'') ''boom'')] idleServer)
       = [Forward, Sleep 2000, Forward, Sleep 2000, Forward, SwitchAccount 3]
   \<and> currentAuthIndex (processRequest (exampleConfig 3 []) (exampleWorld Ready) False generateContent
        [Got (errorEventWith (JStr ''500'') ''boom''), Got (errorEventWith (JStr ''500'') ''boom''),
         Got (errorEventWith (JStr ''500'') ''boom'')] idleServer) = 3
   \<and> trace (processRequest (exampleConfig 3 []) (exampleWorld Ready) True generateContent
        [Got (errorEventWith (JStr ''500'') ''boom''), Got (errorEventWith (JStr ''500'') ''boom''),
         Got (errorEventWith (JStr ''500'') ''boom'')] idleServer)
       = [Forward, Sleep 2000, Forward, Sleep 2000, Forward, SwitchAccount 3]
   \<and> failureCount (resultState (retryLoop (exampleConfig 3 []) (exampleWorld Ready) False 1
        [Got (errorEventWith (JStr ''500'') ''boom''), Got (headerEvent 200 [])] idleServer)) = 1
   \<and> trace (resultState (retryLoop (exampleConfig 3 []) (exampleWorld Ready) False 1
        [Got (errorEventWith (JStr ''500'') ''boom''), Got (headerEvent 200 [])] idleServer))
       = [Forward, Sleep 2000, Forward]
   \<and> statusCode (res (processRequest (exampleConfig 3 []) (exampleWorld Ready) False generateContent
        [Got (errorEvent (Some 1000) ''boom'')] idleServer)) = 500
   \<and> written (res (processRequest (exampleConfig 3 []) (exampleWorld Ready) False generateContent
        [Got (errorEvent (Some 1000) ''boom'')] idleServer))
       = [PlainBody (ProxyError InvalidStatusCode)]"
proof -
  have plain: "\<not> includes_str (path generateContent) '':stream''"
    by (simp add: generateContent_def)
  have cn: "connected (exampleWorld Ready)"
    by (simp add: exampleWorld_def)
  have p: "trace (processRequest (exampleConfig 3 []) (exampleWorld Ready) True generateContent
        [Got (errorEventWith (JStr ''500'') ''boom''), Got (errorEventWith (JStr ''500'') ''boom''),
         Got (errorEventWith (JStr ''500'') ''boom'')] idleServer)
       = trace (resultState (retryLoop (exampleConfig 3 []) (exampleWorld Ready) False 1
        [Got (errorEventWith (JStr ''500'') ''boom''), Got (errorEventWith (JStr ''500'') ''boom''),
         Got (errorEventWith (JStr ''500'') ''boom'')] idleServer))"
    using cn pseudo_plain_trace [OF plain] by (simp add: processRequest_def)
  have q: "trace (resultState (retryLoop (exampleConfig 3 []) (exampleWorld Ready) False 1
        [Got (errorEventWith (JStr ''500'') ''boom''), Got (errorEventWith (JStr ''500'') ''boom''),
         Got (errorEventWith (JStr ''500'') ''boom'')] idleServer))
       = [Forward, Sleep 2000, Forward, Sleep 2000, Forward, SwitchAccount 3]"
    by (simp add: loop_eval failover_eval)
  have r: "event_type (errorEventWith (JStr ''500'') ''boom'') = Some ''error''
   \<and> status (errorEventWith (JStr ''500'') ''boom'') = JStr ''500''
   \<and> trace (processRequest (exampleConfig 3 []) (exampleWorld Ready) False generateContent
        [Got (errorEventWith (JStr ''500'') ''boom''), Got (errorEventWith (JStr ''500'') ''boom''),
         Got (errorEventWith (JStr ''500'') ''boom'')] idleServer)
       = [Forward, Sleep 2000, Forward, Sleep 2000, Forward, SwitchAccount 3]
   \<and> currentAuthIndex (processRequest (exampleConfig 3 []) (exampleWorld Ready) False generateContent
        [Got (errorEventWith (JStr ''500'') ''boom''), Got (errorEventWith (JStr ''500'') ''boom''),
         Got (errorEventWith (JStr ''500'') ''boom'')] idleServer) = 3"
    by (simp add: loop_eval failover_eval)
  have t: "failureCount (resultState (retryLoop (exampleConfig 3 []) (exampleWorld Ready) False 1
        [Got (errorEventWith (JStr ''500'') ''boom''), Got (headerEvent 200 [])] idleServer)) = 1
   \<and> trace (resultState (retryLoop (exampleConfig 3 []) (exampleWorld Ready) False 1
        [Got (errorEventWith (JStr ''500'') ''boom''), Got (headerEvent 200 [])] idleServer))
       = [Forward, Sleep 2000, Forward]"
    by (simp add: loop_eval failover_eval)
  have u: "statusCode (res (processRequest (exampleConfig 3 []) (exampleWorld Ready) False generateContent
        [Got (errorEvent (Some 1000) ''boom'')] idleServer)) = 500
   \<and> written (res (processRequest (exampleConfig 3 []) (exampleWorld Ready) False generateContent
        [Got (errorEvent (Some 1000) ''boom'')] idleServer))
       = [PlainBody (ProxyError InvalidStatusCode)]"
    by (simp add: loop_eval failover_eval)
  from p q r t u show ?thesis
    by simp
qed

section \<open>The two servers compared\<close>

text \<open>
  The repository holds two server files. The full server is the one the definitions above
  follow first; \<open>unified-server.js\<close>, the file that \<open>start.sh\<close> runs, has its own registry
  and request handler. Where both implement the same behaviour, the properties below are
  proved of the full server in general and both are evaluated on one input.
\<close>

lemmas unified_eval =
  exampleConfig_def exampleWorld_def idleServer_def freshResponse_def
  errorEvent_def errorEventWith_def headerEvent_def chunkEvent_def STREAM_END_def emptyMsg_def
  handleRealStream_unified_def handleFailure_unified_def forwardRequest_def record_action_def
  statusLine_def orDefault_def truthyVal_def headThrows_def relayHeader_unified_def
  await_def onRes_def res_send_def res_end_def res_write_def res_set_def Let_def

lemmas example_facts =
  exampleConfig_def exampleWorld_def idleServer_def getAvailableIndices_def


subsection \<open>Immediate switch\<close>

text \<open>
  In the full server a failure whose reconciled status is in the immediate-switch set calls
  \<open>_switchToNextAuth\<close> at once; with no switch under way and a rebuild that succeeds, the
  next credential is active afterwards and the counter is 0, whatever the threshold.
\<close>

lemma immediate_switch_full:
  fixes toClient :: bool
  assumes "isImmediateSwitch c (correctedDetails e)"
    and "\<not> isAuthSwitching s" and "launch w (switches s) = Ready"
    and "\<not> closeThrows w (switches s)" and "getAvailableIndices (auth w) \<noteq> []"
  defines "s' \<equiv> handleRequestFailureAndSwitch c w e toClient s"
  shows "failureCount s' = 0
     \<and> getNextAuthIndex (getAvailableIndices (auth w)) (currentAuthIndex s) = Some (currentAuthIndex s')
     \<and> trace s' = trace s @ [SwitchAccount (currentAuthIndex s')]"
proof -
  let ?pre = "if toClient
      then onRes (sendErrorChunkToClient (SwitchingOnStatus (status (correctedDetails e)))) s else s"
  have pre: "\<not> isAuthSwitching ?pre" "launch w (switches ?pre) = Ready"
    "\<not> closeThrows w (switches ?pre)" "currentAuthIndex ?pre = currentAuthIndex s" "trace ?pre = trace s"
    using assms(2) assms(3) assms(4) by simp_all
  from trySwitch_idle [OF pre(1) pre(2) pre(3) assms(5), of toClient] pre(4) pre(5)
  show ?thesis
    unfolding s'_def handle_immediate [OF assms(1)] by simp
qed


text \<open>
  Claim C3. With the immediate-switch set \<open>[429]\<close> and the threshold 0, an error event with
  status 429 is a failure whose reconciled status belongs to the set. The handler of
  \<open>unified-server.js\<close> answers it with one send, no account switch, the credential 1 still
  active and the counter raised to 1: it never reads the set. The failure handler of the
  full server, on the same event, switches to the credential 3 and leaves the counter at 0.
\<close>

theorem C3_unified_ignores_immediate_switch:
  "isImmediateSwitch (exampleConfig 0 [429]) (correctedDetails (errorEvent (Some 429) ''quota''))
   \<and> trace (handleRealStream_unified (exampleConfig 0 [429]) (exampleWorld Ready)
        [Got (errorEvent (Some 429) ''quota'')] idleServer) = [Forward]
   \<and> currentAuthIndex (handleRealStream_unified (exampleConfig 0 [429]) (exampleWorld Ready)
        [Got (errorEvent (Some 429) ''quota'')] idleServer) = 1
   \<and> failureCount (handleRealStream_unified (exampleConfig 0 [429]) (exampleWorld Ready)
        [Got (errorEvent (Some 429) ''quota'')] idleServer) = 1
   \<and> trace (handleRequestFailureAndSwitch (exampleConfig 0 [429]) (exampleWorld Ready)
        (errorEvent (Some 429) ''quota'') False idleServer) = [SwitchAccount 3]
   \<and> currentAuthIndex (handleRequestFailureAndSwitch (exampleConfig 0 [429]) (exampleWorld Ready)
        (errorEvent (Some 429) ''quota'') False idleServer) = 3
   \<and> failureCount (handleRequestFailureAndSwitch (exampleConfig 0 [429]) (exampleWorld Ready)
        (errorEvent (Some 429) ''quota'') False idleServer) = 0"
proof -
  let ?c = "exampleConfig 0 [429]" and ?w = "exampleWorld Ready" and ?e = "errorEvent (Some 429) ''quota''"
  have imm: "isImmediateSwitch ?c (correctedDetails ?e)"
    by (simp add: isImmediateSwitch_def correctedDetails_status embeddedStatus_def exampleConfig_def
        errorEvent_def errorEventWith_def emptyMsg_def looseHere_def looseAfter_def codeField_def
        orElse_def)
  have unified: "trace (handleRealStream_unified ?c ?w [Got ?e] idleServer) = [Forward]
     \<and> currentAuthIndex (handleRealStream_unified ?c ?w [Got ?e] idleServer) = 1
     \<and> failureCount (handleRealStream_unified ?c ?w [Got ?e] idleServer) = 1"
    by (simp add: unified_eval)
  have pre: "\<not> isAuthSwitching idleServer" "launch ?w (switches idleServer) = Ready"
    "\<not> closeThrows ?w (switches idleServer)" "getAvailableIndices (auth ?w) \<noteq> []"
    by (simp_all add: example_facts)
  have nxt: "getNextAuthIndex (getAvailableIndices (auth ?w)) (currentAuthIndex idleServer) = Some 3"
    by (simp add: example_facts getNextAuthIndex_def)
  from immediate_switch_full [OF imm pre, of False] nxt
  have full: "trace (handleRequestFailureAndSwitch ?c ?w ?e False idleServer) = [SwitchAccount 3]
     \<and> currentAuthIndex (handleRequestFailureAndSwitch ?c ?w ?e False idleServer) = 3
     \<and> failureCount (handleRequestFailureAndSwitch ?c ?w ?e False idleServer) = 0"
    by (simp add: idleServer_def)
  from imm unified full show ?thesis by blast
qed


subsection \<open>Time-out while streaming\<close>

text \<open>
  In the full server, under the passthrough policy, a header with status 200 followed by
  chunks and then silence (or an explicit time-out) ends the response normally: it holds
  exactly the chunks with data, in order, and the counter is 0.
\<close>

lemma res_set_cond_fields:
  "written (if b then res_set n v r else r) = written r
   \<and> writableEnded (if b then res_set n v r else r) = writableEnded r
   \<and> headersSent (if b then res_set n v r else r) = headersSent r
   \<and> statusCode (if b then res_set n v r else r) = statusCode r"
  by (simp add: res_set_def)

lemma relayHeader_fields:
  "written (relayHeader h r) = written r \<and> writableEnded (relayHeader h r) = writableEnded r
   \<and> headersSent (relayHeader h r) = headersSent r \<and> statusCode (relayHeader h r) = statusCode r"
  unfolding relayHeader_def by (rule res_set_cond_fields)

lemma fold_relayHeader_fields:
  "written (fold relayHeader hs r) = written r \<and> writableEnded (fold relayHeader hs r) = writableEnded r
   \<and> headersSent (fold relayHeader hs r) = headersSent r \<and> statusCode (fold relayHeader hs r) = statusCode r"
  by (induction hs arbitrary: r) (simp_all add: relayHeader_fields)

lemma setResponseHeaders_fields:
  "written (snd (setResponseHeaders w m r)) = written r
   \<and> writableEnded (snd (setResponseHeaders w m r)) = writableEnded r
   \<and> headersSent (snd (setResponseHeaders w m r)) = headersSent r
   \<and> (case statusLine w (orDefault (status m) 200) of
         Some k \<Rightarrow> fst (setResponseHeaders w m r) \<and> statusCode (snd (setResponseHeaders w m r)) = k
       | None \<Rightarrow> \<not> fst (setResponseHeaders w m r)
                  \<and> statusCode (snd (setResponseHeaders w m r)) = statusCode r)"
  by (simp add: setResponseHeaders_def fold_relayHeader_fields Let_def split: option.splits)

lemma streamLoop_chunks:
  assumes "connectionMaintainer s = None" and "rest = [] \<or> (\<exists>r. rest = TimedOut # r)"
  shows "\<exists>t. streamLoop w True (map (\<lambda>d. Got (chunkEvent d)) ds @ rest) s = (Some QueueTimeout, t)
     \<and> written (res t) = written (res s) @ map Bytes (filter (\<lambda>d. d \<noteq> []) ds)
     \<and> writableEnded (res t) = writableEnded (res s)
     \<and> statusCode (res t) = statusCode (res s)
     \<and> failureCount t = failureCount s"
  using assms(1)
proof (induction ds arbitrary: s)
  case Nil
  with assms(2) show ?case
    by (auto simp: await_idle)
next
  case (Cons d ds)
  let ?s1 = "if d = [] then await w s else onRes (res_write (Bytes d)) (await w s)"
  have m: "connectionMaintainer ?s1 = None"
    using Cons.prems by simp
  from Cons.IH [OF m] obtain t where
    t: "streamLoop w True (map (\<lambda>d. Got (chunkEvent d)) ds @ rest) ?s1 = (Some QueueTimeout, t)"
       "written (res t) = written (res ?s1) @ map Bytes (filter (\<lambda>d. d \<noteq> []) ds)"
       "writableEnded (res t) = writableEnded (res ?s1)"
       "statusCode (res t) = statusCode (res ?s1)"
       "failureCount t = failureCount ?s1"
    by blast
  have step: "streamLoop w True (map (\<lambda>d. Got (chunkEvent d)) (d # ds) @ rest) s
      = streamLoop w True (map (\<lambda>d. Got (chunkEvent d)) ds @ rest) ?s1"
    by (simp add: chunkEvent_def emptyMsg_def headThrows_def)
  from t Cons.prems show ?case
    unfolding step by (intro exI [of _ t]) (auto simp: res_write_def)
qed

lemma real_timeout_is_end:
  assumes "connected w" and "1 \<le> maxRetries c" and "res s = freshResponse"
    and "connectionMaintainer s = None" and "rest = [] \<or> (\<exists>r. rest = TimedOut # r)"
  shows "\<exists>t. handleRealStreamResponse c w
                (Got (headerEvent 200 hs) # map (\<lambda>d. Got (chunkEvent d)) ds @ rest) s = Inr t
     \<and> written (res t) = map Bytes (filter (\<lambda>d. d \<noteq> []) ds)
     \<and> writableEnded (res t) \<and> statusCode (res t) = 200 \<and> failureCount t = 0"
proof -
  let ?h = "headerEvent 200 hs"
  let ?q = "map (\<lambda>d. Got (chunkEvent d)) ds @ rest"
  have nr: "\<not> retryable ?h" and ne: "event_type ?h \<noteq> Some ''error''"
    and st: "statusLine w (orDefault (status ?h) 200) = Some 200"
    by (simp_all add: retryable_def headerEvent_def emptyMsg_def statusLine_def orDefault_def
        truthyVal_def)
  have loop: "retryLoop c w False 1 (Got ?h # ?q) s
      = LoopDone (Some ?h) False (await w (record_action Forward s)) ?q"
    using retryLoop_other [OF assms(1) nr assms(2)] .
  let ?t0 = "await w (record_action Forward s)"
  obtain accepted r1 where hd: "setResponseHeaders w ?h (res ?t0) = (accepted, r1)"
    by (cases "setResponseHeaders w ?h (res ?t0)")
  from setResponseHeaders_fields [of w ?h "res ?t0"] hd st assms(3) assms(4)
  have r1: "accepted" "written r1 = []" "\<not> writableEnded r1" "statusCode r1 = 200"
    by (simp_all add: freshResponse_def)
  let ?t1 = "?t0\<lparr>failureCount := 0, res := r1\<rparr>"
  have t1: "connectionMaintainer ?t1 = None" "written (res ?t1) = []" "\<not> writableEnded (res ?t1)"
    "statusCode (res ?t1) = 200" "failureCount ?t1 = 0"
    using assms(4) r1 by simp_all
  from streamLoop_chunks [OF t1(1) assms(5), of w ds] obtain t2 where
    t2: "streamLoop w True ?q ?t1 = (Some QueueTimeout, t2)"
        "written (res t2) = written (res ?t1) @ map Bytes (filter (\<lambda>d. d \<noteq> []) ds)"
        "writableEnded (res t2) = writableEnded (res ?t1)"
        "statusCode (res t2) = statusCode (res ?t1)"
        "failureCount t2 = failureCount ?t1"
    by blast
  have "handleRealStreamResponse c w (Got ?h # ?q) s
      = Inr (onRes (\<lambda>r. if \<not> writableEnded r then res_end r else r) t2)"
    using ne t2(1) hd r1(1) by (simp add: handleRealStreamResponse_def loop Let_def headThrows_def)
  moreover have "written (res (onRes (\<lambda>r. if \<not> writableEnded r then res_end r else r) t2))
      = map Bytes (filter (\<lambda>d. d \<noteq> []) ds)"
    using t1(2) t2(2) by (simp add: res_end_def)
  moreover have "writableEnded (res (onRes (\<lambda>r. if \<not> writableEnded r then res_end r else r) t2))"
    by (simp add: res_end_def)
  moreover have "statusCode (res (onRes (\<lambda>r. if \<not> writableEnded r then res_end r else r) t2)) = 200"
    using t1(4) t2(4) by (simp add: res_end_def)
  moreover have "failureCount (onRes (\<lambda>r. if \<not> writableEnded r then res_end r else r) t2) = 0"
    using t1(5) t2(5) by simp
  ultimately show ?thesis
    by blast
qed

text \<open>
  Claim C5. A header with status 200, three chunks and then silence, under the passthrough
  policy. The handler of \<open>unified-server.js\<close> writes the three chunks, sends the time-out
  of the fourth wait to \<open>_handleFailure\<close>, which counts a failure, and never ends the
  response. The handler of the full server, on the same script, ends the response with
  exactly the three chunks and the counter at 0.
\<close>

theorem C5_unified_timeout_is_failure:
  "written (res (handleRealStream_unified (exampleConfig 0 []) (exampleWorld Ready)
      [Got (headerEvent 200 []), Got (chunkEvent ''a''), Got (chunkEvent ''b''), Got (chunkEvent ''c'')]
      idleServer)) = [Bytes ''a'', Bytes ''b'', Bytes ''c'']
   \<and> \<not> writableEnded (res (handleRealStream_unified (exampleConfig 0 []) (exampleWorld Ready)
      [Got (headerEvent 200 []), Got (chunkEvent ''a''), Got (chunkEvent ''b''), Got (chunkEvent ''c'')]
      idleServer))
   \<and> failureCount (handleRealStream_unified (exampleConfig 0 []) (exampleWorld Ready)
      [Got (headerEvent 200 []), Got (chunkEvent ''a''), Got (chunkEvent ''b''), Got (chunkEvent ''c'')]
      idleServer) = 1
   \<and> written (res (finalState (handleRealStreamResponse (exampleConfig 0 []) (exampleWorld Ready)
      [Got (headerEvent 200 []), Got (chunkEvent ''a''), Got (chunkEvent ''b''), Got (chunkEvent ''c'')]
      idleServer))) = [Bytes ''a'', Bytes ''b'', Bytes ''c'']
   \<and> writableEnded (res (finalState (handleRealStreamResponse (exampleConfig 0 []) (exampleWorld Ready)
      [Got (headerEvent 200 []), Got (chunkEvent ''a''), Got (chunkEvent ''b''), Got (chunkEvent ''c'')]
      idleServer)))
   \<and> failureCount (finalState (handleRealStreamResponse (exampleConfig 0 []) (exampleWorld Ready)
      [Got (headerEvent 200 []), Got (chunkEvent ''a''), Got (chunkEvent ''b''), Got (chunkEvent ''c'')]
      idleServer)) = 0"
proof -
  let ?c = "exampleConfig 0 []" and ?w = "exampleWorld Ready"
  let ?q = "[Got (headerEvent 200 []), Got (chunkEvent ''a''), Got (chunkEvent ''b''), Got (chunkEvent ''c'')]"
  have unified: "written (res (handleRealStream_unified ?c ?w ?q idleServer)) = [Bytes ''a'', Bytes ''b'', Bytes ''c'']
     \<and> \<not> writableEnded (res (handleRealStream_unified ?c ?w ?q idleServer))
     \<and> failureCount (handleRealStream_unified ?c ?w ?q idleServer) = 1"
    by (simp add: unified_eval)
  have pre: "connected ?w" "1 \<le> maxRetries ?c" "res idleServer = freshResponse"
    "connectionMaintainer idleServer = None" "([]::deq list) = [] \<or> (\<exists>r. ([]::deq list) = TimedOut # r)"
    by (simp_all add: example_facts)
  from real_timeout_is_end [OF pre, of "[]" "[''a'', ''b'', ''c'']"]
  have full: "written (res (finalState (handleRealStreamResponse ?c ?w ?q idleServer)))
        = [Bytes ''a'', Bytes ''b'', Bytes ''c'']
     \<and> writableEnded (res (finalState (handleRealStreamResponse ?c ?w ?q idleServer)))
     \<and> failureCount (finalState (handleRealStreamResponse ?c ?w ?q idleServer)) = 0"
    by auto
  from unified full show ?thesis by blast
qed


subsection \<open>Worker disconnect\<close>

text \<open>
  In the full server the \<open>close\<close> event of the worker's socket closes every queue in the
  map, rejects every pending \<open>dequeue\<close> with the error of a closed queue, and clears the map;
  a later \<open>dequeue\<close> on such a queue is rejected at once, and a request that meets the closed
  queue in its first wait ends with the status 500.
\<close>

lemma closeAll_result:
  "closeAll as st = (out, st') \<Longrightarrow>
     (\<forall>a \<in> set as. closed (st' a) \<and> waitingResolvers (st' a) = [] \<and> messages (st' a) = [])
     \<and> (\<forall>a. a \<notin> set as \<longrightarrow> st' a = st a)
     \<and> (\<forall>a \<in> set as. \<forall>r \<in> set (waitingResolvers (st a)). Rejected r QueueClosedError \<in> set out)
     \<and> (\<forall>x \<in> set out. \<exists>r. x = Rejected r QueueClosedError)"
proof (induction as arbitrary: st out st')
  case Nil
  then show ?case by simp
next
  case (Cons a as)
  obtain out2 st2 where rec: "closeAll as (st(a := snd (mq_close (st a)))) = (out2, st2)"
    by (cases "closeAll as (st(a := snd (mq_close (st a))))")
  from Cons.prems rec have out: "out = fst (mq_close (st a)) @ out2" and st': "st' = st2"
    by (simp_all add: Let_def split: prod.splits)
  note ih = Cons.IH [OF rec]
  show ?case
    apply (intro conjI)
    subgoal using ih st' by (auto simp: mq_close_def split: if_splits)
    subgoal using ih st' by (auto simp: mq_close_def split: if_splits)
    subgoal using ih st' out by (fastforce simp: mq_close_def split: if_splits)
    subgoal using ih st' out by (auto simp: mq_close_def split: if_splits)
    done
qed

lemma removeConnection_closes_all:
  assumes "removeConnection websocket r = (out, r')"
  shows "messageQueues r' = [] \<and> websocket \<notin> set (connections r')
     \<and> (\<forall>a \<in> snd ` set (messageQueues r).
           closed (store r' a) \<and> waitingResolvers (store r' a) = []
           \<and> (\<forall>resolver \<in> set (waitingResolvers (store r a)). Rejected resolver QueueClosedError \<in> set out)
           \<and> (\<forall>resolver. fst (mq_dequeue resolver (store r' a)) = [Rejected resolver QueueClosedError]))"
proof -
  obtain st where ca: "closeAll (map snd (messageQueues r)) (store r) = (out, st)"
    and r': "r' = r\<lparr>connections := removeAll websocket (connections r), store := st, messageQueues := []\<rparr>"
    using assms by (auto simp: removeConnection_def Let_def split: prod.splits)
  from closeAll_result [OF ca] r' show ?thesis
    by (auto simp: mq_dequeue_def)
qed

lemma closed_request_fails:
  assumes "connected w" and "1 \<le> maxRetries c"
    and "res s = freshResponse" and "connectionMaintainer s = None"
  shows "res (processRequest c w False rq (Closed # q) s)
       = res_send 500 ''text/plain'' (PlainBody (ProxyError QueueClosedError)) freshResponse
     \<and> trace (processRequest c w False rq (Closed # q) s) = trace s @ [Forward]"
proof -
  have "retryLoop c w False 1 (Closed # q) s
      = LoopThrew QueueClosedError (await w (record_action Forward s)) (Closed # q)"
    using assms(1) assms(2) by (subst retryLoop.simps) (simp add: attemptOnce_def forwardRequest_def)
  with assms show ?thesis
    by (simp add: processRequest_def handleRealStreamResponse_def handleRequestError_def
          sendError_def freshResponse_def)
qed

text \<open>
  Claim C7. Two requests wait in \<open>dequeue\<close>, each on its own mailbox, when the worker's
  socket closes. The \<open>close\<close> handler of \<open>unified-server.js\<close> settles no promise and leaves
  both mailboxes in the map, open, with their waiters. The \<open>close\<close> handler of the full
  server rejects both waiters with the error of a closed queue, closes both queues and
  empties the map.
\<close>

theorem C7_unified_disconnect_keeps_mailboxes:
  "messageQueues twoInFlight = [(''r1'', 0), (''r2'', 1)]
   \<and> waitingResolvers (store twoInFlight 0) = [10] \<and> waitingResolvers (store twoInFlight 1) = [11]
   \<and> fst (onClose_unified 7 twoInFlight) = []
   \<and> messageQueues (snd (onClose_unified 7 twoInFlight)) = [(''r1'', 0), (''r2'', 1)]
   \<and> store (snd (onClose_unified 7 twoInFlight)) 0 = \<lparr>messages = [], waitingResolvers = [10], closed = False\<rparr>
   \<and> store (snd (onClose_unified 7 twoInFlight)) 1 = \<lparr>messages = [], waitingResolvers = [11], closed = False\<rparr>
   \<and> fst (removeConnection 7 twoInFlight) = [Rejected 10 QueueClosedError, Rejected 11 QueueClosedError]
   \<and> messageQueues (snd (removeConnection 7 twoInFlight)) = []
   \<and> closed (store (snd (removeConnection 7 twoInFlight)) 0)
   \<and> closed (store (snd (removeConnection 7 twoInFlight)) 1)"
  by (simp add: onClose_unified_def removeConnection_def mq_close_def twoInFlight_def dequeueAt_def
      createMessageQueue_def mq_dequeue_def newQueue_def Let_def)

subsection \<open>Buffered delivery\<close>

text \<open>
  In the full server, under the buffered policy, the script header 200, one chunk with
  data, end marker gives for a stream request the keep-alive frames that fell into the
  three waits, then one data frame and the terminator; for any other request one JSON body
  made from the data, or the status 500 when the data does not parse.
\<close>

lemma pseudo_buffered_stream:
  fixes hs :: "(string \<times> string) list"
  assumes "connected w" and "1 \<le> maxRetries c" and "res s = freshResponse" and "d \<noteq> []"
    and "includes_str (path rq) '':stream''"
  defines "t \<equiv> handlePseudoStreamResponse c w rq
      [Got (headerEvent 200 hs), Got (chunkEvent d), Got STREAM_END] s"
  shows "written (res t)
       = replicate (ticks w (clock s) + ticks w (clock s + 1) + ticks w (clock s + 2)) (Bytes (keepAliveChunk rq))
           @ [dataFrame d, doneFrame]
     \<and> writableEnded (res t) \<and> statusCode (res t) = 200 \<and> failureCount t = 0"
proof -
  let ?h = "headerEvent 200 hs"
  let ?s1 = "openEventStream rq s"
  have nr: "\<not> retryable ?h" and ne: "event_type ?h \<noteq> Some ''error''"
    by (simp_all add: retryable_def headerEvent_def emptyMsg_def toNumber_def)
  have loop: "retryLoop c w True 1 [Got ?h, Got (chunkEvent d), Got STREAM_END] ?s1
      = LoopDone (Some ?h) False (await w (record_action Forward ?s1)) [Got (chunkEvent d), Got STREAM_END]"
    using retryLoop_other [OF assms(1) nr assms(2)] .
  let ?a1 = "await w (record_action Forward ?s1)"
  let ?a3 = "await w (await w (?a1\<lparr>failureCount := 0\<rparr>))"
  have a1: "written (res ?a1) = replicate (ticks w (clock s)) (Bytes (keepAliveChunk rq))"
    "\<not> writableEnded (res ?a1)" "statusCode (res ?a1) = 200" "clock ?a1 = clock s + 1"
    "connectionMaintainer ?a1 = Some (keepAliveChunk rq)"
    using assms(3)
    by (simp_all add: await_def openEventStream_def onRes_def record_action_def res_set_def
        freshResponse_def Let_def)
  have a3: "written (res ?a3) = replicate (ticks w (clock s) + ticks w (clock s + 1) + ticks w (clock s + 2))
        (Bytes (keepAliveChunk rq))"
    "\<not> writableEnded (res ?a3)" "statusCode (res ?a3) = 200" "failureCount ?a3 = 0"
    using a1 by (simp_all add: await_def onRes_def Let_def replicate_add [symmetric] add.assoc)
  have tr: "pseudoTry c w True [Got ?h, Got (chunkEvent d), Got STREAM_END] ?s1
      = Inr (onRes (deliver w True (chunkEvent d)) ?a3)"
    using ne by (simp add: pseudoTry_def loop Let_def)
  have t: "t = (onRes (\<lambda>r. if \<not> writableEnded r then res_end r else r)
        (onRes (deliver w True (chunkEvent d)) ?a3))\<lparr>connectionMaintainer := None\<rparr>"
    using assms(5) by (simp add: t_def handlePseudoStreamResponse_def tr Let_def)
  show ?thesis
    using a3 assms(4)
    by (simp add: t deliver_def chunkEvent_def emptyMsg_def res_write_def res_end_def)
qed

lemma pseudo_buffered_json:
  fixes hs :: "(string \<times> string) list"
  assumes "connected w" and "1 \<le> maxRetries c" and "res s = freshResponse" and "d \<noteq> []"
    and "connectionMaintainer s = None" and "\<not> includes_str (path rq) '':stream''"
  defines "t \<equiv> handlePseudoStreamResponse c w rq
      [Got (headerEvent 200 hs), Got (chunkEvent d), Got STREAM_END] s"
  shows "res t = (case jsonRoundTrip w d of
                    Some jsonData \<Rightarrow> res_send 200 ''application/json'' (JsonBody jsonData) freshResponse
                  | None \<Rightarrow> res_send 500 ''text/plain'' (PlainBody BackendUnparsable) freshResponse)
     \<and> failureCount t = 0"
proof -
  let ?h = "headerEvent 200 hs"
  have nr: "\<not> retryable ?h" and ne: "event_type ?h \<noteq> Some ''error''"
    by (simp_all add: retryable_def headerEvent_def emptyMsg_def toNumber_def)
  have loop: "retryLoop c w False 1 [Got ?h, Got (chunkEvent d), Got STREAM_END] s
      = LoopDone (Some ?h) False (await w (record_action Forward s)) [Got (chunkEvent d), Got STREAM_END]"
    using retryLoop_other [OF assms(1) nr assms(2)] .
  let ?a3 = "await w (await w ((await w (record_action Forward s))\<lparr>failureCount := 0\<rparr>))"
  have a3: "res ?a3 = freshResponse" "failureCount ?a3 = 0"
    using assms(3) assms(5) by simp_all
  have tr: "pseudoTry c w False [Got ?h, Got (chunkEvent d), Got STREAM_END] s
      = Inr (onRes (deliver w False (chunkEvent d)) ?a3)"
    using ne by (simp add: pseudoTry_def loop Let_def)
  have t: "t = (onRes (\<lambda>r. if \<not> writableEnded r then res_end r else r)
        (onRes (deliver w False (chunkEvent d)) ?a3))\<lparr>connectionMaintainer := None\<rparr>"
    using assms(6) by (simp add: t_def handlePseudoStreamResponse_def tr Let_def)
  show ?thesis
    using a3 assms(4)
    by (cases "jsonRoundTrip w d")
       (simp_all add: t deliver_def chunkEvent_def emptyMsg_def sendError_def
          res_send_def res_write_def res_end_def res_set_def freshResponse_def)
qed

text \<open>
  Claim C6. Under the buffered policy the worker emits a header with status 200, a chunk
  with the JSON text \<open>"hello"\<close> and the end marker, for a request whose path does not ask
  for streaming. The handler of \<open>unified-server.js\<close> answers with an event stream: one data
  frame and the terminator. The handler of the full server answers with one JSON body.
\<close>

theorem C6_unified_always_event_stream:
  "\<not> includes_str (path generateContent) '':stream''
   \<and> res (handlePseudoStream_unified (exampleConfig 0 []) (exampleWorld Ready) generateContent
        [Got (headerEvent 200 []), Got (chunkEvent helloJson), Got STREAM_END] idleServer)
     = \<lparr>statusCode = 200,
        resHeaders = [(''Content-Type'', ''text/event-stream''), (''Cache-Control'', ''no-cache''),
                      (''Connection'', ''keep-alive'')],
        headersSent = True, writableEnded = True,
        written = [dataFrame helloJson, doneFrame]\<rparr>
   \<and> res (handlePseudoStreamResponse (exampleConfig 0 []) (exampleWorld Ready) generateContent
        [Got (headerEvent 200 []), Got (chunkEvent helloJson), Got STREAM_END] idleServer)
     = \<lparr>statusCode = 200, resHeaders = [(''Content-Type'', ''application/json'')],
        headersSent = True, writableEnded = True, written = [JsonBody helloJson]\<rparr>"
proof -
  let ?c = "exampleConfig 0 []" and ?w = "exampleWorld Ready"
  let ?q = "[Got (headerEvent 200 []), Got (chunkEvent helloJson), Got STREAM_END]"
  have ns: "\<not> includes_str (path generateContent) '':stream''"
    by (simp add: generateContent_def)
  have ne: "helloJson \<noteq> []"
    by (simp add: helloJson_def)
  have unified: "res (handlePseudoStream_unified ?c ?w generateContent ?q idleServer)
     = \<lparr>statusCode = 200,
        resHeaders = [(''Content-Type'', ''text/event-stream''), (''Cache-Control'', ''no-cache''),
                      (''Connection'', ''keep-alive'')],
        headersSent = True, writableEnded = True,
        written = [dataFrame helloJson, doneFrame]\<rparr>"
    using ne
    by (simp add: unified_eval handlePseudoStream_unified_def pseudoLoop_unified.simps generateContent_def)
  have pre: "connected ?w" "1 \<le> maxRetries ?c" "res idleServer = freshResponse" "helloJson \<noteq> []"
    "connectionMaintainer idleServer = None"
    using ne by (simp_all add: example_facts)
  have rt: "jsonRoundTrip ?w helloJson = Some helloJson"
    by (simp add: exampleWorld_def)
  from pseudo_buffered_json [OF pre ns, of "[]"] rt
  have full: "res (handlePseudoStreamResponse ?c ?w generateContent ?q idleServer)
     = \<lparr>statusCode = 200, resHeaders = [(''Content-Type'', ''application/json'')],
        headersSent = True, writableEnded = True, written = [JsonBody helloJson]\<rparr>"
    by (simp add: res_send_def res_end_def res_write_def res_set_def freshResponse_def)
  from ns unified full show ?thesis by blast
qed

end
